theory Spec2Isabelle
  imports
    Complex_Main
    "HOL-Library.AList"
    "HOL-Library.Product_Lexorder"
begin

section \<open>The graph store (knowledge\_graph.py)\<close>

text \<open>
  The store keeps three things: a directed multigraph, the ordered triple log and a
  dictionary from entity name to type. Of the multigraph only what the store uses is
  modelled: the nodes in insertion order, each with its \<open>entity_type\<close> attribute
  (\<open>None\<close> while the attribute is absent), and the edges in insertion order, each
  with its \<open>relation\<close> attribute. A Python dictionary is an association list kept
  in insertion order, written with \<open>AList.update\<close> and read with \<open>map_of\<close>.
\<close>

record MultiDiGraph =
  node_attrs :: "(string \<times> string option) list"
  edge_list :: "(string \<times> string \<times> string) list"

record KnowledgeGraph =
  graph :: MultiDiGraph
  triples :: "(string \<times> string \<times> string) list"
  entity_types :: "(string \<times> string) list"

definition empty_graph :: MultiDiGraph where
  "empty_graph = \<lparr>node_attrs = [], edge_list = []\<rparr>"

text \<open>\<open>KnowledgeGraph.__init__\<close>: the fresh store.\<close>

definition init_kg :: KnowledgeGraph where
  "init_kg = \<lparr>graph = empty_graph, triples = [], entity_types = []\<rparr>"

text \<open>
  \<open>G.add_node(n, entity_type=t)\<close> adds the node when it is new, and in either case
  writes the attribute: on a node that exists the attribute is overwritten.
\<close>

definition add_node :: "MultiDiGraph \<Rightarrow> string \<Rightarrow> string \<Rightarrow> MultiDiGraph" where
  "add_node g n t = g\<lparr>node_attrs := AList.update n (Some t) (node_attrs g)\<rparr>"

text \<open>
  \<open>G.add_edge(u, v, relation=p)\<close> adds an endpoint that is not a node yet (without
  attributes) and always adds a new parallel edge.
\<close>

definition ensure_node :: "string \<Rightarrow> (string \<times> string option) list \<Rightarrow> (string \<times> string option) list" where
  "ensure_node n ns = (if n \<in> fst ` set ns then ns else ns @ [(n, None)])"

definition add_edge :: "MultiDiGraph \<Rightarrow> string \<Rightarrow> string \<Rightarrow> string \<Rightarrow> MultiDiGraph" where
  "add_edge g u v p =
     g\<lparr>node_attrs := ensure_node v (ensure_node u (node_attrs g)),
       edge_list := edge_list g @ [(u, v, p)]\<rparr>"

definition number_of_nodes :: "MultiDiGraph \<Rightarrow> nat" where
  "number_of_nodes g = length (node_attrs g)"

definition number_of_edges :: "MultiDiGraph \<Rightarrow> nat" where
  "number_of_edges g = length (edge_list g)"

text \<open>
  Python's truth value of an optional string: \<open>None\<close> and the empty string are false.
  \<open>x or d\<close> is \<open>x\<close> when \<open>x\<close> is true and \<open>d\<close> otherwise.
\<close>

fun truthy :: "string option \<Rightarrow> bool" where
  "truthy None = False"
| "truthy (Some s) = (s \<noteq> [])"

fun py_or :: "string option \<Rightarrow> string \<Rightarrow> string" where
  "py_or None d = d"
| "py_or (Some s) d = (if s = [] then d else s)"

fun set_type :: "string \<Rightarrow> string option \<Rightarrow> (string \<times> string) list \<Rightarrow> (string \<times> string) list" where
  "set_type n None et = et"
| "set_type n (Some t) et = (if t = [] then et else AList.update n t et)"

text \<open>\<open>add_triple(subject, predicate, obj, subject_type=None, object_type=None)\<close>.\<close>

definition add_triple ::
  "KnowledgeGraph \<Rightarrow> string \<Rightarrow> string \<Rightarrow> string \<Rightarrow> string option \<Rightarrow> string option
     \<Rightarrow> KnowledgeGraph" where
  "add_triple kg subject predicate obj subject_type object_type =
     (let g1 = add_node (graph kg) subject (py_or subject_type ''UNKNOWN'');
          g2 = add_node g1 obj (py_or object_type ''UNKNOWN'');
          g3 = add_edge g2 subject obj predicate
      in \<lparr>graph = g3,
          triples = triples kg @ [(subject, predicate, obj)],
          entity_types = set_type obj object_type (set_type subject subject_type (entity_types kg))\<rparr>)"

text \<open>A sequence of \<open>add_triple\<close> calls, each with its five arguments.\<close>

type_synonym call = "string \<times> string \<times> string \<times> string option \<times> string option"

fun add_call :: "KnowledgeGraph \<Rightarrow> call \<Rightarrow> KnowledgeGraph" where
  "add_call kg (s, p, ob, st, ot) = add_triple kg s p ob st ot"

definition add_calls :: "KnowledgeGraph \<Rightarrow> call list \<Rightarrow> KnowledgeGraph" where
  "add_calls kg cs = foldl add_call kg cs"

text \<open>The \<open>entity_type\<close> attribute of a node of the graph, and the type dictionary.\<close>

definition node_type :: "KnowledgeGraph \<Rightarrow> string \<Rightarrow> string option" where
  "node_type kg n = (case map_of (node_attrs (graph kg)) n of None \<Rightarrow> None | Some a \<Rightarrow> a)"

definition type_of_entity :: "KnowledgeGraph \<Rightarrow> string \<Rightarrow> string option" where
  "type_of_entity kg n = map_of (entity_types kg) n"

subsection \<open>Saving and loading\<close>

text \<open>
  \<open>save_graph\<close> writes the dictionary \<open>{'triples': ..., 'entity_types': ...}\<close> as
  JSON; \<open>load_graph\<close> reads it back. The file is modelled by what it holds. The key
  \<open>entity_types\<close> may be absent from a file (\<open>data.get('entity_types', {})\<close>).
\<close>

record graph_file =
  file_triples :: "(string \<times> string \<times> string) list"
  file_entity_types :: "(string \<times> string) list option"

definition save_graph :: "KnowledgeGraph \<Rightarrow> graph_file" where
  "save_graph kg = \<lparr>file_triples = triples kg, file_entity_types = Some (entity_types kg)\<rparr>"

text \<open>
  The rebuilding loop of \<open>load_graph\<close> is
  \<^verbatim>\<open>for subject, predicate, obj in self.triples: self.add_triple(...)\<close>.
  A Python list iterator holds an index \<open>i\<close>; each step it stops when
  \<open>i\<close> has reached the current length of the list and otherwise yields element
  \<open>i\<close>. The body calls \<open>add_triple\<close> on the same store, which appends to the very
  list being iterated. The loop may not return, so it is a partial function whose value
  \<open>None\<close> stands for not returning.
\<close>

partial_function (option) load_loop :: "nat \<Rightarrow> KnowledgeGraph \<Rightarrow> KnowledgeGraph option" where
  "load_loop i kg =
     (if i < length (triples kg)
      then (case triples kg ! i of
              (subject, predicate, obj) \<Rightarrow>
                load_loop (Suc i)
                  (add_triple kg subject predicate obj
                     (map_of (entity_types kg) subject) (map_of (entity_types kg) obj)))
      else Some kg)"

definition load_graph :: "KnowledgeGraph \<Rightarrow> graph_file \<Rightarrow> KnowledgeGraph option" where
  "load_graph kg d =
     load_loop 0
       \<lparr>graph = empty_graph,
        triples = file_triples d,
        entity_types = (case file_entity_types d of None \<Rightarrow> [] | Some et \<Rightarrow> et)\<rparr>"

subsection \<open>Top entities\<close>










subsection \<open>Statistics\<close>











section \<open>Strings\<close>

text \<open>
  A Python \<open>str\<close> is a list of code points. \<open>ascii\<close> reads a literal of the
  source. \<open>slice s a b\<close> is \<open>s[a:b]\<close> and \<open>str_find s sub start\<close> is
  \<open>s.find(sub, start)\<close>, with \<open>None\<close> for -1.
\<close>

type_synonym str = "nat list"

definition ascii :: "string \<Rightarrow> str" where
  "ascii s = map of_char s"

definition is_ascii :: "str \<Rightarrow> bool" where
  "is_ascii s = list_all (\<lambda>c. c < 128) s"

text \<open>
  The character classes and case mappings of Python on ASCII code points: the letters
  A-Z and a-z, the digits 0-9, and the white space characters 9-13 and 28-32.
  \<open>ascii_title\<close> is \<open>str.title\<close>: a letter that follows a letter is lower-cased,
  any other letter is upper-cased.
\<close>

definition ascii_isupper :: "nat \<Rightarrow> bool" where
  "ascii_isupper c = (65 \<le> c \<and> c \<le> 90)"

definition ascii_islower :: "nat \<Rightarrow> bool" where
  "ascii_islower c = (97 \<le> c \<and> c \<le> 122)"

definition ascii_isdigit :: "nat \<Rightarrow> bool" where
  "ascii_isdigit c = (48 \<le> c \<and> c \<le> 57)"

definition ascii_isalpha :: "nat \<Rightarrow> bool" where
  "ascii_isalpha c = (ascii_isupper c \<or> ascii_islower c)"

definition ascii_isalnum :: "nat \<Rightarrow> bool" where
  "ascii_isalnum c = (ascii_isalpha c \<or> ascii_isdigit c)"

definition ascii_isspace :: "nat \<Rightarrow> bool" where
  "ascii_isspace c = ((9 \<le> c \<and> c \<le> 13) \<or> (28 \<le> c \<and> c \<le> 32))"

definition ascii_isword :: "nat \<Rightarrow> bool" where
  "ascii_isword c = (ascii_isalnum c \<or> c = 95)"

definition ascii_lower :: "nat \<Rightarrow> nat" where
  "ascii_lower c = (if ascii_isupper c then c + 32 else c)"

definition ascii_upper :: "nat \<Rightarrow> nat" where
  "ascii_upper c = (if ascii_islower c then c - 32 else c)"

fun ascii_title_from :: "bool \<Rightarrow> str \<Rightarrow> str" where
  "ascii_title_from previous_is_cased [] = []"
| "ascii_title_from previous_is_cased (c # cs) =
     (if ascii_isalpha c
      then (if previous_is_cased then ascii_lower c else ascii_upper c) # ascii_title_from True cs
      else c # ascii_title_from False cs)"

definition ascii_title :: "str \<Rightarrow> str" where
  "ascii_title s = ascii_title_from False s"

text \<open>
  Outside ASCII the classes and mappings are those of the Unicode tables of the
  interpreter, which are not part of the program: they are a parameter \<open>U\<close> of the
  model, and every statement below holds for every \<open>U\<close>. The case mappings are
  functions of the whole string (they may change its length). \<open>unicode_ignorecase_eq U x c\<close>
  says that the code point \<open>x\<close> of a text matches the literal \<open>c\<close> of a pattern
  compiled with IGNORECASE.
\<close>

record unicode =
  unicode_lower :: "str \<Rightarrow> str"
  unicode_upper :: "str \<Rightarrow> str"
  unicode_title :: "str \<Rightarrow> str"
  unicode_isalnum :: "nat \<Rightarrow> bool"
  unicode_isdigit :: "nat \<Rightarrow> bool"
  unicode_isspace :: "nat \<Rightarrow> bool"
  unicode_isword :: "nat \<Rightarrow> bool"
  unicode_ignorecase_eq :: "nat \<Rightarrow> nat \<Rightarrow> bool"

text \<open>
  \<open>str.lower\<close>, \<open>str.upper\<close>, \<open>str.title\<close> and \<open>str.isalnum\<close> (of one
  character), and the classes \<open>\d\<close>, \<open>\s\<close> and \<open>\w\<close> of the module \<open>re\<close>
  on \<open>str\<close> patterns.
\<close>

definition lower :: "unicode \<Rightarrow> str \<Rightarrow> str" where
  "lower U s = (if is_ascii s then map ascii_lower s else unicode_lower U s)"

definition upper :: "unicode \<Rightarrow> str \<Rightarrow> str" where
  "upper U s = (if is_ascii s then map ascii_upper s else unicode_upper U s)"

definition title :: "unicode \<Rightarrow> str \<Rightarrow> str" where
  "title U s = (if is_ascii s then ascii_title s else unicode_title U s)"

definition isalnum :: "unicode \<Rightarrow> nat \<Rightarrow> bool" where
  "isalnum U c = (if c < 128 then ascii_isalnum c else unicode_isalnum U c)"

definition is_digit :: "unicode \<Rightarrow> nat \<Rightarrow> bool" where
  "is_digit U c = (if c < 128 then ascii_isdigit c else unicode_isdigit U c)"

definition is_space :: "unicode \<Rightarrow> nat \<Rightarrow> bool" where
  "is_space U c = (if c < 128 then ascii_isspace c else unicode_isspace U c)"

definition is_word :: "unicode \<Rightarrow> nat \<Rightarrow> bool" where
  "is_word U c = (if c < 128 then ascii_isword c else unicode_isword U c)"

definition clamp_index :: "int \<Rightarrow> nat \<Rightarrow> nat" where
  "clamp_index i n = (if i < 0 then nat (max 0 (int n + i)) else min (nat i) n)"

definition slice :: "str \<Rightarrow> int \<Rightarrow> int \<Rightarrow> str" where
  "slice s a b =
     (let lo = clamp_index a (length s); hi = clamp_index b (length s)
      in take (hi - lo) (drop lo s))"

fun starts_with :: "str \<Rightarrow> str \<Rightarrow> bool" where
  "starts_with s [] = True"
| "starts_with [] (c # cs) = False"
| "starts_with (x # xs) (c # cs) = (x = c \<and> starts_with xs cs)"

fun find_in :: "str \<Rightarrow> str \<Rightarrow> nat \<Rightarrow> nat option" where
  "find_in sub [] k = (if sub = [] then Some k else None)"
| "find_in sub (x # xs) k = (if starts_with (x # xs) sub then Some k else find_in sub xs (Suc k))"

definition str_find :: "str \<Rightarrow> str \<Rightarrow> nat \<Rightarrow> nat option" where
  "str_find s sub start = (if start \<le> length s then find_in sub (drop start s) start else None)"

section \<open>Regular expressions\<close>

text \<open>
  The regular expressions of the program, as syntax trees, and the matching of Python's
  \<open>re\<close> module on them. \<open>ends r ic s i\<close> lists the positions where a match of
  \<open>r\<close> that starts at position \<open>i\<close> of \<open>s\<close> can end, in the order in which the
  backtracking matcher tries them (greedy repetition first, alternatives left to right):
  a match at \<open>i\<close> ends at the head of the list. \<open>ic\<close> is the flag IGNORECASE:
  with it an ASCII code point matches an ASCII literal when their lower cases are equal,
  and the tables decide for the others.
  Under a star only iterations that consume a character are followed, so the number of
  iterations is bounded by the length of the rest of the text.
\<close>

datatype regex =
    Chr char
  | Digit
  | Space
  | OneOf string
  | Seq regex regex
  | Alt regex regex
  | Opt regex
  | Star regex
  | Plus regex
  | Rep nat nat regex
  | WordB
  | Ahead regex
  | Eps

fun seqs :: "regex list \<Rightarrow> regex" where
  "seqs [] = Eps"
| "seqs (r # rs) = Seq r (seqs rs)"

fun alts :: "regex list \<Rightarrow> regex" where
  "alts [] = OneOf []"
| "alts [r] = r"
| "alts (r # rs) = Alt r (alts rs)"

definition lit :: "string \<Rightarrow> regex" where
  "lit s = seqs (map Chr s)"

definition char_eq :: "unicode \<Rightarrow> bool \<Rightarrow> nat \<Rightarrow> char \<Rightarrow> bool" where
  "char_eq U ignorecase x c =
     (if ignorecase then
        (if x < 128 \<and> of_char c < (128 :: nat) then ascii_lower x = ascii_lower (of_char c)
         else unicode_ignorecase_eq U x (of_char c))
      else x = of_char c)"

definition at_boundary :: "unicode \<Rightarrow> str \<Rightarrow> nat \<Rightarrow> bool" where
  "at_boundary U s i =
     (let word_before = (0 < i \<and> i \<le> length s \<and> is_word U (s ! (i - 1)));
          word_after = (i < length s \<and> is_word U (s ! i))
      in word_before \<noteq> word_after)"

fun star_ends :: "(nat \<Rightarrow> nat list) \<Rightarrow> nat \<Rightarrow> nat \<Rightarrow> nat list" where
  "star_ends f 0 i = [i]"
| "star_ends f (Suc n) i = concat (map (star_ends f n) (filter (\<lambda>j. i < j) (f i))) @ [i]"

fun rep_ends :: "(nat \<Rightarrow> nat list) \<Rightarrow> nat \<Rightarrow> nat \<Rightarrow> nat \<Rightarrow> nat list" where
  "rep_ends f lo 0 i = (if lo = 0 then [i] else [])"
| "rep_ends f lo (Suc hi) i =
     concat (map (rep_ends f (lo - 1) hi) (f i)) @ (if lo = 0 then [i] else [])"

primrec ends :: "regex \<Rightarrow> unicode \<Rightarrow> bool \<Rightarrow> str \<Rightarrow> nat \<Rightarrow> nat list" where
  "ends (Chr c) U ic s i = (if i < length s \<and> char_eq U ic (s ! i) c then [Suc i] else [])"
| "ends Digit U ic s i = (if i < length s \<and> is_digit U (s ! i) then [Suc i] else [])"
| "ends Space U ic s i = (if i < length s \<and> is_space U (s ! i) then [Suc i] else [])"
| "ends (OneOf cs) U ic s i =
     (if i < length s \<and> list_ex (char_eq U ic (s ! i)) cs then [Suc i] else [])"
| "ends (Seq a b) U ic s i = concat (map (ends b U ic s) (ends a U ic s i))"
| "ends (Alt a b) U ic s i = ends a U ic s i @ ends b U ic s i"
| "ends (Opt a) U ic s i = ends a U ic s i @ [i]"
| "ends (Star a) U ic s i = star_ends (ends a U ic s) (length s - i) i"
| "ends (Plus a) U ic s i =
     concat (map (\<lambda>j. star_ends (ends a U ic s) (length s - j) j) (ends a U ic s i))"
| "ends (Rep lo hi a) U ic s i = rep_ends (ends a U ic s) lo hi i"
| "ends WordB U ic s i = (if at_boundary U s i then [i] else [])"
| "ends (Ahead a) U ic s i = (if ends a U ic s i = [] then [] else [i])"
| "ends Eps U ic s i = [i]"

text \<open>
  A compiled pattern is the flag IGNORECASE and the expression. \<open>scan\<close> tries the
  start positions in turn; \<open>must_advance\<close> refuses an empty match at the first of
  them, as the matcher does right after an empty match. \<open>finditer\<close> lists the
  non-overlapping matches from left to right as (start, end).
\<close>

type_synonym pattern = "bool \<times> regex"

fun scan :: "unicode \<Rightarrow> regex \<Rightarrow> bool \<Rightarrow> str \<Rightarrow> nat list \<Rightarrow> bool \<Rightarrow> (nat \<times> nat) option" where
  "scan U r ic s [] must_advance = None"
| "scan U r ic s (p # ps) must_advance =
     (case (if must_advance then filter (\<lambda>e. e \<noteq> p) (ends r U ic s p) else ends r U ic s p) of
        [] \<Rightarrow> scan U r ic s ps False
      | e # es \<Rightarrow> Some (p, e))"

definition search_from :: "unicode \<Rightarrow> regex \<Rightarrow> bool \<Rightarrow> str \<Rightarrow> nat \<Rightarrow> bool \<Rightarrow> (nat \<times> nat) option" where
  "search_from U r ic s pos must_advance = scan U r ic s [pos..<Suc (length s)] must_advance"

definition search :: "unicode \<Rightarrow> pattern \<Rightarrow> str \<Rightarrow> bool" where
  "search U p s = (search_from U (snd p) (fst p) s 0 False \<noteq> None)"

lemma star_ends_ge: "e \<in> set (star_ends f n i) \<Longrightarrow> i \<le> e"
  by (induction n arbitrary: i e) fastforce+

lemma star_ends_le:
  assumes f: "\<And>j e. j \<le> L \<Longrightarrow> e \<in> set (f j) \<Longrightarrow> e \<le> L"
  shows "i \<le> L \<Longrightarrow> e \<in> set (star_ends f n i) \<Longrightarrow> e \<le> L"
proof (induction n arbitrary: i e)
  case 0
  then show ?case by simp
next
  case (Suc n)
  from Suc.prems(2) consider "e = i" | j where "j \<in> set (f i)" "e \<in> set (star_ends f n j)"
    by auto
  then show ?case
  proof cases
    case 1
    with Suc.prems show ?thesis by simp
  next
    case 2
    from f [OF Suc.prems(1) 2(1)] have "j \<le> L" .
    from Suc.IH [OF this 2(2)] show ?thesis .
  qed
qed

lemma rep_ends_bounds:
  assumes f: "\<And>j e. e \<in> set (f j) \<Longrightarrow> j \<le> e \<and> (j \<le> L \<longrightarrow> e \<le> L)"
  shows "e \<in> set (rep_ends f lo hi i) \<Longrightarrow> i \<le> e \<and> (i \<le> L \<longrightarrow> e \<le> L)"
proof (induction hi arbitrary: lo i e)
  case 0
  then show ?case by (simp split: if_splits)
next
  case (Suc hi)
  from Suc.prems consider "e = i" | j where "j \<in> set (f i)" "e \<in> set (rep_ends f (lo - 1) hi j)"
    by (auto split: if_splits)
  then show ?case
  proof cases
    case 1
    then show ?thesis by simp
  next
    case 2
    from f [OF 2(1)] Suc.IH [OF 2(2)] show ?thesis by auto
  qed
qed

lemma ends_bounds:
  "e \<in> set (ends r U ic s i) \<Longrightarrow> i \<le> e \<and> (i \<le> length s \<longrightarrow> e \<le> length s)"
proof (induction r arbitrary: i e)
  case (Seq a b)
  then obtain j where "j \<in> set (ends a U ic s i)" "e \<in> set (ends b U ic s j)" by auto
  with Seq.IH show ?case by fastforce
next
  case (Star a)
  from Star.prems have e: "e \<in> set (star_ends (ends a U ic s) (length s - i) i)" by simp
  have "i \<le> length s \<Longrightarrow> e \<le> length s"
    by (rule star_ends_le [where f = "ends a U ic s", OF _ _ e]) (use Star.IH in auto)
  with star_ends_ge [OF e] show ?case by simp
next
  case (Plus a)
  then obtain j where j: "j \<in> set (ends a U ic s i)"
    and e: "e \<in> set (star_ends (ends a U ic s) (length s - j) j)" by auto
  have "j \<le> length s \<Longrightarrow> e \<le> length s"
    by (rule star_ends_le [where f = "ends a U ic s", OF _ _ e]) (use Plus.IH in auto)
  with star_ends_ge [OF e] Plus.IH [OF j] show ?case by auto
next
  case (Rep lo hi a)
  from Rep.prems have "e \<in> set (rep_ends (ends a U ic s) lo hi i)" by simp
  then show ?case
    by (rule rep_ends_bounds [where L = "length s", rotated]) (use Rep.IH in auto)
qed (auto split: if_splits)


lemma scan_Some:
  "scan U r ic s ps ma = Some (st, e) \<Longrightarrow> distinct ps \<Longrightarrow>
     st \<in> set ps \<and> e \<in> set (ends r U ic s st) \<and> (ma \<and> st = hd ps \<longrightarrow> e \<noteq> st)"
proof (induction ps arbitrary: ma)
  case Nil
  then show ?case by simp
next
  case (Cons p ps)
  show ?case
  proof (cases "(if ma then filter (\<lambda>e. e \<noteq> p) (ends r U ic s p) else ends r U ic s p)")
    case Nil
    with Cons.prems have "scan U r ic s ps False = Some (st, e)" by simp
    from Cons.IH [OF this] Cons.prems(2) show ?thesis by auto
  next
    case (Cons x xs)
    with Cons.prems have eq: "p = st" "x = e" by auto
    have "x \<in> set (if ma then filter (\<lambda>e. e \<noteq> p) (ends r U ic s p) else ends r U ic s p)"
      unfolding Cons by simp
    with eq show ?thesis by (auto split: if_splits)
  qed
qed

lemma search_from_Some:
  assumes "search_from U r ic s pos ma = Some (st, e)"
  shows "pos \<le> st" "st \<le> e" "e \<le> length s" "ma \<Longrightarrow> pos < e"
proof -
  note sc = scan_Some [OF assms [unfolded search_from_def] distinct_upt]
  from sc have st: "st \<in> set [pos..<Suc (length s)]" by (rule conjunct1)
  from sc have e: "e \<in> set (ends r U ic s st)" by blast
  from sc have adv: "ma \<and> st = hd [pos..<Suc (length s)] \<longrightarrow> e \<noteq> st" by blast
  from st have range: "pos \<le> st" "st \<le> length s"
    by (simp_all only: set_upt atLeastLessThan_iff less_Suc_eq_le)
  show "pos \<le> st" by (rule range)
  from ends_bounds [OF e] range show "st \<le> e" "e \<le> length s" by auto
  show "pos < e" if ma
  proof (cases "st = pos")
    case True
    with range have "hd [pos..<Suc (length s)] = pos" by (simp add: upt_rec)
    with adv that True have "e \<noteq> st" by simp
    with \<open>st \<le> e\<close> True show ?thesis by simp
  next
    case False
    with \<open>pos \<le> st\<close> \<open>st \<le> e\<close> show ?thesis by simp
  qed
qed

function finditer_from :: "unicode \<Rightarrow> regex \<Rightarrow> bool \<Rightarrow> str \<Rightarrow> nat \<Rightarrow> bool \<Rightarrow> (nat \<times> nat) list" where
  "finditer_from U r ic s pos must_advance =
     (case search_from U r ic s pos must_advance of
        None \<Rightarrow> []
      | Some (st, e) \<Rightarrow> (st, e) # finditer_from U r ic s e (e = st))"
  by pat_completeness auto
termination
proof (relation "measure (\<lambda>(U, r, ic, s, pos, ma). 2 * (Suc (length s) - pos) + (if ma then 0 else 1))",
    goal_cases)
  case 1
  show ?case by simp
next
  case (2 U r ic s pos ma x st e)
  then have m: "search_from U r ic s pos ma = Some (st, e)" by simp
  note b = search_from_Some [OF m]
  show ?case
  proof (cases ma)
    case True
    with b(4) b(3) show ?thesis by auto
  next
    case False
    with b show ?thesis by auto
  qed
qed

definition finditer :: "unicode \<Rightarrow> pattern \<Rightarrow> str \<Rightarrow> (nat \<times> nat) list" where
  "finditer U p s = finditer_from U (snd p) (fst p) s 0 False"

section \<open>The entity recognizer (custom\_ner.py)\<close>

text \<open>
  A candidate is \<open>(entity_type, text, start, end)\<close>. The dictionaries are Python
  sets; their terms are listed in the order of the source. The order in which a set is
  iterated only changes the order of the candidates of one type, which all differ in
  start or in length.
\<close>

type_synonym span = "string \<times> str \<times> int \<times> int"

definition entity_dictionaries :: "(string \<times> str list) list" where
  "entity_dictionaries =
    [(''PERSON'',
      map ascii
      [''trump'', ''donald trump'', ''biden'', ''joe biden'', ''xi jinping'', ''modi'',
       ''narendra modi'', ''trudeau'', ''justin trudeau'', ''macron'', ''emmanuel macron'',
       ''johnson'', ''boris johnson'', ''putin'', ''vladimir putin'', ''obama'',
       ''barack obama'', ''yellen'', ''janet yellen'', ''powell'', ''jerome powell'']),
     (''LOCATION'',
      map ascii
      [''usa'', ''united states'', ''america'', ''us'', ''china'', ''india'', ''canada'',
       ''mexico'', ''japan'', ''germany'', ''france'', ''uk'', ''united kingdom'', ''britain'',
       ''russia'', ''australia'', ''brazil'', ''south korea'', ''italy'', ''spain'', ''eu'',
       ''european union'', ''asia'', ''europe'', ''north america'', ''africa'', ''middle east'',
       ''washington'', ''beijing'', ''new delhi'', ''london'', ''tokyo'', ''brussels'',
       ''moscow'', ''ottawa'']),
     (''ORGANIZATION'',
      map ascii
      [''bbc'', ''cnn'', ''fox news'', ''reuters'', ''bloomberg'', ''wsj'',
       ''wall street journal'', ''new york times'', ''nyt'', ''washington post'',
       ''financial times'', ''economist'', ''al jazeera'', ''abc news'', ''nbc'', ''msnbc'',
       ''cnbc'', ''forbes'', ''politico'', ''wto'', ''world trade organization'', ''imf'',
       ''world bank'', ''un'', ''united nations'', ''nato'', ''oecd'', ''apple'', ''google'',
       ''amazon'', ''microsoft'', ''tesla'', ''walmart'', ''general motors'', ''gm'', ''ford'',
       ''boeing'', ''caterpillar'', ''harley davidson'', ''samsung'', ''huawei'', ''alibaba'',
       ''congress'', ''senate'', ''house'', ''white house'', ''treasury'',
       ''commerce department'', ''state department'']),
     (''POLICY'',
      map ascii
      [''maga'', ''make america great again'', ''america first'', ''nafta'', ''usmca'',
       ''trade war'', ''section 232'', ''section 301'', ''reciprocal tariff'',
       ''national security tariff'', ''steel tariff'', ''aluminum tariff'', ''auto tariff'',
       ''trade deal'', ''trade agreement'', ''free trade'', ''protectionism'', ''tariff policy'']),
     (''ECONOMIC_SECTOR'',
      map ascii
      [''agriculture'', ''manufacturing'', ''automotive'', ''steel'', ''aluminum'',
       ''technology'', ''tech'', ''energy'', ''oil'', ''gas'', ''solar'', ''semiconductor'',
       ''electronics'', ''textile'', ''aerospace'', ''pharmaceuticals'', ''chemicals''])]"


lemma find_in_Some:
  "find_in sub xs k = Some p \<Longrightarrow> k \<le> p \<and> p + length sub \<le> k + length xs"
proof (induction xs arbitrary: k)
  case Nil
  then show ?case by (simp split: if_splits)
next
  case (Cons x xs)
  have sw: "starts_with ys zs \<Longrightarrow> length zs \<le> length ys" for ys zs
    by (induction ys zs rule: starts_with.induct) auto
  show ?case
  proof (cases "starts_with (x # xs) sub")
    case True
    with Cons.prems sw [OF True] show ?thesis by simp
  next
    case False
    with Cons.prems have "find_in sub xs (Suc k) = Some p" by simp
    from Cons.IH [OF this] show ?thesis by simp
  qed
qed

lemma str_find_Some:
  "str_find s sub start = Some p \<Longrightarrow> start \<le> p \<and> p + length sub \<le> length s"
  using find_in_Some [of sub "drop start s" start p]
  by (auto simp: str_find_def split: if_splits)

text \<open>
  The \<open>while True\<close> loop of \<open>_match_dictionary\<close> for one term. No term of the
  dictionaries is empty (\<open>entity_dictionaries_nonempty\<close> below); on an empty term the
  loop of the source would not advance, and the model returns no match.
\<close>

function match_term :: "unicode \<Rightarrow> string \<Rightarrow> str \<Rightarrow> str \<Rightarrow> str \<Rightarrow> nat \<Rightarrow> span list" where
  "match_term U entity_type entity text text_lower start =
     (if entity = [] then []
      else case str_find text_lower entity start of
        None \<Rightarrow> []
      | Some pos \<Rightarrow>
          if pos > 0 \<and> isalnum U (text_lower ! (pos - 1))
          then match_term U entity_type entity text text_lower (pos + 1)
          else let end_pos = pos + length entity in
            if end_pos < length text_lower \<and> isalnum U (text_lower ! end_pos)
            then match_term U entity_type entity text text_lower (pos + 1)
            else (entity_type, slice text (int pos) (int end_pos), int pos, int end_pos)
                   # match_term U entity_type entity text text_lower end_pos)"
  by pat_completeness auto
termination
proof (relation "measure (\<lambda>(U, entity_type, entity, text, text_lower, start). Suc (length text_lower) - start)",
    goal_cases)
  case 1
  show ?case by simp
next
  case (2 U ty ent tx tl st p)
  from str_find_Some [OF 2(2)] show ?case by (simp, arith)
next
  case (3 U ty ent tx tl st p ep)
  from str_find_Some [OF 3(2)] show ?case by (simp, arith)
next
  case (4 U ty ent tx tl st p ep)
  from 4(1) have "0 < length ent" by simp
  moreover from 4 have "ep = p + length ent" by simp
  moreover note str_find_Some [OF 4(2)]
  ultimately have "Suc (length tl) - ep < Suc (length tl) - st" by arith
  then show ?case by simp
qed

definition match_dictionary :: "unicode \<Rightarrow> str \<Rightarrow> span list" where
  "match_dictionary U text =
     (let text_lower = lower U text
      in concat (map (\<lambda>(entity_type, dictionary).
           concat (map (\<lambda>entity. match_term U entity_type entity text text_lower 0) dictionary))
           entity_dictionaries))"

text \<open>
  The patterns of type MONEY:
  \<^item> \<^verbatim>\<open>\$\s*\d+(?:,\d{3})*(?:\.\d+)?\s*(?:billion|million|thousand|trillion|bn|mn|k|m|b)?\<close> (IGNORECASE)
  \<^item> \<^verbatim>\<open>\d+(?:,\d{3})*(?:\.\d+)?\s*(?:dollars|usd|yuan|euros?|pounds?)\<close> (IGNORECASE)
\<close>

definition money_patterns :: "pattern list" where
  "money_patterns =
    [(True,
      seqs [Chr (CHR ''$''), Star Space, Plus Digit,
            Star (seqs [Chr (CHR '',''), Rep 3 3 Digit]),
            Opt (seqs [Chr (CHR ''.''), Plus Digit]), Star Space,
            Opt (alts [lit ''billion'', lit ''million'', lit ''thousand'', lit ''trillion'', lit ''bn'', lit ''mn'', Chr (CHR ''k''), Chr (CHR ''m''), Chr (CHR ''b'')])]),
     (True,
      seqs [Plus Digit, Star (seqs [Chr (CHR '',''), Rep 3 3 Digit]),
            Opt (seqs [Chr (CHR ''.''), Plus Digit]), Star Space,
            alts [lit ''dollars'', lit ''usd'', lit ''yuan'', seqs [lit ''euro'', Opt (Chr (CHR ''s''))], seqs [lit ''pound'', Opt (Chr (CHR ''s''))]]])]"

text \<open>
  The patterns of type PERCENTAGE:
  \<^item> \<^verbatim>\<open>\d+(?:\.\d+)?\s*%\<close>
  \<^item> \<^verbatim>\<open>\d+(?:\.\d+)?\s*percent\<close> (IGNORECASE)
\<close>

definition percentage_patterns :: "pattern list" where
  "percentage_patterns =
    [(False,
      seqs [Plus Digit, Opt (seqs [Chr (CHR ''.''), Plus Digit]), Star Space, Chr (CHR ''%'')]),
     (True,
      seqs [Plus Digit, Opt (seqs [Chr (CHR ''.''), Plus Digit]), Star Space, lit ''percent''])]"

text \<open>
  The patterns of type DATE:
  \<^item> \<^verbatim>\<open>\b(?:january|february|march|april|may|june|july|august|september|october|november|december)\s+\d{1,2},?\s+\d{4}\b\<close> (IGNORECASE)
  \<^item> \<^verbatim>\<open>\b\d{1,2}[/-]\d{1,2}[/-]\d{2,4}\b\<close>
  \<^item> \<^verbatim>\<open>\b(?:jan|feb|mar|apr|may|jun|jul|aug|sep|sept|oct|nov|dec)\.?\s+\d{1,2},?\s+\d{4}\b\<close> (IGNORECASE)
  \<^item> \<^verbatim>\<open>\b\d{4}\b(?=\s+(?:tariff|trade|deal))\<close> (IGNORECASE)
\<close>

definition date_patterns :: "pattern list" where
  "date_patterns =
    [(True,
      seqs [WordB,
            alts [lit ''january'', lit ''february'', lit ''march'', lit ''april'', lit ''may'', lit ''june'', lit ''july'', lit ''august'', lit ''september'', lit ''october'', lit ''november'', lit ''december''],
            Plus Space, Rep 1 2 Digit, Opt (Chr (CHR '','')), Plus Space, Rep 4 4 Digit, WordB]),
     (False,
      seqs [WordB, Rep 1 2 Digit, OneOf ''/-'', Rep 1 2 Digit, OneOf ''/-'', Rep 2 4 Digit,
            WordB]),
     (True,
      seqs [WordB,
            alts [lit ''jan'', lit ''feb'', lit ''mar'', lit ''apr'', lit ''may'', lit ''jun'', lit ''jul'', lit ''aug'', lit ''sep'', lit ''sept'', lit ''oct'', lit ''nov'', lit ''dec''],
            Opt (Chr (CHR ''.'')), Plus Space, Rep 1 2 Digit, Opt (Chr (CHR '','')), Plus Space,
            Rep 4 4 Digit, WordB]),
     (True,
      seqs [WordB, Rep 4 4 Digit, WordB,
            Ahead (seqs [Plus Space, alts [lit ''tariff'', lit ''trade'', lit ''deal'']])])]"

text \<open>
  The patterns of type TARIFF\_RATE:
  \<^item> \<^verbatim>\<open>\d+(?:\.\d+)?\s*%\s*tariff\<close> (IGNORECASE)
  \<^item> \<^verbatim>\<open>tariff\s+of\s+\d+(?:\.\d+)?\s*%\<close> (IGNORECASE)
\<close>

definition tariff_rate_patterns :: "pattern list" where
  "tariff_rate_patterns =
    [(True,
      seqs [Plus Digit, Opt (seqs [Chr (CHR ''.''), Plus Digit]), Star Space, Chr (CHR ''%''),
            Star Space, lit ''tariff'']),
     (True,
      seqs [lit ''tariff'', Plus Space, lit ''of'', Plus Space, Plus Digit,
            Opt (seqs [Chr (CHR ''.''), Plus Digit]), Star Space, Chr (CHR ''%'')])]"

text \<open>
  The patterns of type PRODUCT:
  \<^item> \<^verbatim>\<open>\b(?:steel|aluminum|cars?|automobile|solar panels?|washing machines?|electronics?|semiconductors?|chips?|soybeans?|pork|beef|wheat|corn)\b\<close> (IGNORECASE)
\<close>

definition product_patterns :: "pattern list" where
  "product_patterns =
    [(True,
      seqs [WordB,
            alts [lit ''steel'', lit ''aluminum'', seqs [lit ''car'', Opt (Chr (CHR ''s''))], lit ''automobile'', seqs [lit ''solar panel'', Opt (Chr (CHR ''s''))], seqs [lit ''washing machine'', Opt (Chr (CHR ''s''))], seqs [lit ''electronic'', Opt (Chr (CHR ''s''))], seqs [lit ''semiconductor'', Opt (Chr (CHR ''s''))], seqs [lit ''chip'', Opt (Chr (CHR ''s''))], seqs [lit ''soybean'', Opt (Chr (CHR ''s''))], lit ''pork'', lit ''beef'', lit ''wheat'', lit ''corn''],
            WordB])]"

definition entity_patterns :: "(string \<times> pattern list) list" where
  "entity_patterns =
    [(''MONEY'', money_patterns),
     (''PERCENTAGE'', percentage_patterns),
     (''DATE'', date_patterns),
     (''TARIFF_RATE'', tariff_rate_patterns),
     (''PRODUCT'', product_patterns)]"


definition match_patterns :: "unicode \<Rightarrow> str \<Rightarrow> span list" where
  "match_patterns U text =
     concat (map (\<lambda>(entity_type, pattern_list).
       concat (map (\<lambda>pattern.
         map (\<lambda>(st, e). (entity_type, slice text (int st) (int e), int st, int e))
           (finditer U pattern text)) pattern_list))
       entity_patterns)"

definition capitalize_entity :: "unicode \<Rightarrow> str \<Rightarrow> string \<Rightarrow> str" where
  "capitalize_entity U text entity_type =
     (if entity_type \<in> set [''MONEY'', ''PERCENTAGE'', ''DATE'', ''TARIFF_RATE''] then text
      else if entity_type \<in> set [''PERSON'', ''LOCATION'', ''ORGANIZATION''] then
        (if upper U text \<in> set (map ascii [''USA'', ''UK'', ''EU'', ''UN'', ''WTO'', ''IMF'', ''NATO'', ''OECD'',
                               ''CNN'', ''BBC'', ''ABC'', ''NBC'', ''NYT'', ''WSJ'', ''MSNBC'', ''CNBC''])
         then upper U text
         else if lower U text \<in> set (map ascii [''usmca'', ''nafta'']) then upper U text
         else title U text)
      else text)"

fun sweep :: "span list \<Rightarrow> int \<Rightarrow> span list" where
  "sweep [] last_end = []"
| "sweep ((entity_type, text, start, end) # es) last_end =
     (if start \<ge> last_end then (entity_type, text, start, end) # sweep es end
      else sweep es last_end)"

definition resolve_overlaps :: "span list \<Rightarrow> span list" where
  "resolve_overlaps entities =
     (if entities = [] then []
      else sweep (sort_key (\<lambda>(entity_type, text, start, end). (start, - (end - start))) entities) (- 1))"

text \<open>
  The argument of the extraction functions is any Python value: both test
  \<open>not text or not isinstance(text, str)\<close> first.
\<close>

datatype py_value = Str str | NotStr

fun extract_entities_with_positions :: "unicode \<Rightarrow> py_value \<Rightarrow> span list" where
  "extract_entities_with_positions U NotStr = []"
| "extract_entities_with_positions U (Str text) =
     (if text = [] then []
      else let dict_entities = match_dictionary U text;
               pattern_entities = match_patterns U text;
               all_entities = dict_entities @ pattern_entities;
               resolved_entities = resolve_overlaps all_entities
           in map (\<lambda>(entity_type, entity_text, start, end).
                (entity_type, capitalize_entity U entity_text entity_type, start, end))
                resolved_entities)"

fun extract_entities :: "unicode \<Rightarrow> py_value \<Rightarrow> (string \<times> str) list" where
  "extract_entities U NotStr = []"
| "extract_entities U (Str text) =
     (if text = [] then []
      else let dict_entities = match_dictionary U text;
               pattern_entities = match_patterns U text;
               all_entities = dict_entities @ pattern_entities;
               resolved_entities = resolve_overlaps all_entities
           in map (\<lambda>(entity_type, entity_text, start, end).
                (entity_type, capitalize_entity U entity_text entity_type))
                resolved_entities)"

declare finditer_from.simps [simp del]

declare match_term.simps [simp del]

section \<open>The relation extractor (relation\_extraction.py)\<close>

record relation_pattern =
  subject_types :: "string list"
  predicate :: string
  object_types :: "string list"
  connecting_words :: "pattern list"

text \<open>
  ANNOUNCES, with the connecting words
  \<^verbatim>\<open>announce[sd]?\<close>,
  \<^verbatim>\<open>propose[sd]?\<close>,
  \<^verbatim>\<open>introduce[sd]?\<close>,
  \<^verbatim>\<open>implement[sd]?\<close>,
  \<^verbatim>\<open>impose[sd]?\<close>,
  \<^verbatim>\<open>declare[sd]?\<close>.
\<close>

definition rule_announces :: relation_pattern where
  "rule_announces =
     \<lparr>subject_types = [''PERSON'', ''ORGANIZATION'', ''LOCATION''],
      predicate = ''ANNOUNCES'',
      object_types = [''POLICY'', ''TARIFF_RATE'', ''MONEY'', ''PERCENTAGE''],
      connecting_words =
        [(True, seqs [lit ''announce'', Opt (OneOf ''sd'')]),
         (True, seqs [lit ''propose'', Opt (OneOf ''sd'')]),
         (True, seqs [lit ''introduce'', Opt (OneOf ''sd'')]),
         (True, seqs [lit ''implement'', Opt (OneOf ''sd'')]),
         (True, seqs [lit ''impose'', Opt (OneOf ''sd'')]),
         (True, seqs [lit ''declare'', Opt (OneOf ''sd'')])]\<rparr>"

text \<open>
  INCREASES, with the connecting words
  \<^verbatim>\<open>increase[sd]?\<close>,
  \<^verbatim>\<open>raise[sd]?\<close>,
  \<^verbatim>\<open>boost[sd]?\<close>,
  \<^verbatim>\<open>hike[sd]?\<close>,
  \<^verbatim>\<open>up\<close>,
  \<^verbatim>\<open>raise[sd]?\<close>.
\<close>

definition rule_increases :: relation_pattern where
  "rule_increases =
     \<lparr>subject_types = [''PERSON'', ''ORGANIZATION'', ''LOCATION''],
      predicate = ''INCREASES'',
      object_types = [''TARIFF_RATE'', ''PERCENTAGE'', ''MONEY''],
      connecting_words =
        [(True, seqs [lit ''increase'', Opt (OneOf ''sd'')]),
         (True, seqs [lit ''raise'', Opt (OneOf ''sd'')]),
         (True, seqs [lit ''boost'', Opt (OneOf ''sd'')]),
         (True, seqs [lit ''hike'', Opt (OneOf ''sd'')]),
         (True, lit ''up''),
         (True, seqs [lit ''raise'', Opt (OneOf ''sd'')])]\<rparr>"

text \<open>
  DECREASES, with the connecting words
  \<^verbatim>\<open>decrease[sd]?\<close>,
  \<^verbatim>\<open>reduce[sd]?\<close>,
  \<^verbatim>\<open>lower[sd]?\<close>,
  \<^verbatim>\<open>cut[s]?\<close>,
  \<^verbatim>\<open>slash(?:es)?\<close>,
  \<^verbatim>\<open>drop[s]?\<close>.
\<close>

definition rule_decreases :: relation_pattern where
  "rule_decreases =
     \<lparr>subject_types = [''PERSON'', ''ORGANIZATION'', ''LOCATION''],
      predicate = ''DECREASES'',
      object_types = [''TARIFF_RATE'', ''PERCENTAGE'', ''MONEY''],
      connecting_words =
        [(True, seqs [lit ''decrease'', Opt (OneOf ''sd'')]),
         (True, seqs [lit ''reduce'', Opt (OneOf ''sd'')]),
         (True, seqs [lit ''lower'', Opt (OneOf ''sd'')]),
         (True, seqs [lit ''cut'', Opt (Chr (CHR ''s''))]),
         (True, seqs [lit ''slash'', Opt (lit ''es'')]),
         (True, seqs [lit ''drop'', Opt (Chr (CHR ''s''))])]\<rparr>"

text \<open>
  REPORTS, with the connecting words
  \<^verbatim>\<open>report[sd]?\<close>,
  \<^verbatim>\<open>state[sd]?\<close>,
  \<^verbatim>\<open>announce[sd]?\<close>,
  \<^verbatim>\<open>say[s]?\<close>,
  \<^verbatim>\<open>claim[sd]?\<close>,
  \<^verbatim>\<open>indicate[sd]?\<close>.
\<close>

definition rule_reports :: relation_pattern where
  "rule_reports =
     \<lparr>subject_types = [''ORGANIZATION''],
      predicate = ''REPORTS'',
      object_types = [''POLICY'', ''PERSON'', ''LOCATION'', ''ORGANIZATION''],
      connecting_words =
        [(True, seqs [lit ''report'', Opt (OneOf ''sd'')]),
         (True, seqs [lit ''state'', Opt (OneOf ''sd'')]),
         (True, seqs [lit ''announce'', Opt (OneOf ''sd'')]),
         (True, seqs [lit ''say'', Opt (Chr (CHR ''s''))]),
         (True, seqs [lit ''claim'', Opt (OneOf ''sd'')]),
         (True, seqs [lit ''indicate'', Opt (OneOf ''sd'')])]\<rparr>"

text \<open>
  TRADES\_WITH, with the connecting words
  \<^verbatim>\<open>trade[sd]?\s+with\<close>,
  \<^verbatim>\<open>trading\s+with\<close>,
  \<^verbatim>\<open>export[sd]?\s+to\<close>,
  \<^verbatim>\<open>import[sd]?\s+from\<close>,
  \<^verbatim>\<open>deal[s]?\s+with\<close>.
\<close>

definition rule_trades_with :: relation_pattern where
  "rule_trades_with =
     \<lparr>subject_types = [''LOCATION'', ''ORGANIZATION''],
      predicate = ''TRADES_WITH'',
      object_types = [''LOCATION'', ''ORGANIZATION''],
      connecting_words =
        [(True, seqs [lit ''trade'', Opt (OneOf ''sd''), Plus Space, lit ''with'']),
         (True, seqs [lit ''trading'', Plus Space, lit ''with'']),
         (True, seqs [lit ''export'', Opt (OneOf ''sd''), Plus Space, lit ''to'']),
         (True, seqs [lit ''import'', Opt (OneOf ''sd''), Plus Space, lit ''from'']),
         (True, seqs [lit ''deal'', Opt (Chr (CHR ''s'')), Plus Space, lit ''with''])]\<rparr>"

text \<open>
  IMPACTS, with the connecting words
  \<^verbatim>\<open>impact[sd]?\<close>,
  \<^verbatim>\<open>affect[sd]?\<close>,
  \<^verbatim>\<open>influence[sd]?\<close>,
  \<^verbatim>\<open>hurt[s]?\<close>,
  \<^verbatim>\<open>harm[s]?\<close>,
  \<^verbatim>\<open>damage[sd]?\<close>,
  \<^verbatim>\<open>benefit[s]?\<close>,
  \<^verbatim>\<open>help[s]?\<close>.
\<close>

definition rule_impacts :: relation_pattern where
  "rule_impacts =
     \<lparr>subject_types = [''POLICY'', ''TARIFF_RATE'', ''PERSON''],
      predicate = ''IMPACTS'',
      object_types = [''ECONOMIC_SECTOR'', ''LOCATION'', ''ORGANIZATION'', ''PRODUCT''],
      connecting_words =
        [(True, seqs [lit ''impact'', Opt (OneOf ''sd'')]),
         (True, seqs [lit ''affect'', Opt (OneOf ''sd'')]),
         (True, seqs [lit ''influence'', Opt (OneOf ''sd'')]),
         (True, seqs [lit ''hurt'', Opt (Chr (CHR ''s''))]),
         (True, seqs [lit ''harm'', Opt (Chr (CHR ''s''))]),
         (True, seqs [lit ''damage'', Opt (OneOf ''sd'')]),
         (True, seqs [lit ''benefit'', Opt (Chr (CHR ''s''))]),
         (True, seqs [lit ''help'', Opt (Chr (CHR ''s''))])]\<rparr>"

text \<open>
  SUPPORTS, with the connecting words
  \<^verbatim>\<open>support[s]?\<close>,
  \<^verbatim>\<open>back[s]?\<close>,
  \<^verbatim>\<open>endorse[sd]?\<close>,
  \<^verbatim>\<open>favor[s]?\<close>,
  \<^verbatim>\<open>promote[sd]?\<close>,
  \<^verbatim>\<open>champion[s]?\<close>.
\<close>

definition rule_supports :: relation_pattern where
  "rule_supports =
     \<lparr>subject_types = [''PERSON'', ''ORGANIZATION'', ''LOCATION''],
      predicate = ''SUPPORTS'',
      object_types = [''POLICY'', ''PERSON''],
      connecting_words =
        [(True, seqs [lit ''support'', Opt (Chr (CHR ''s''))]),
         (True, seqs [lit ''back'', Opt (Chr (CHR ''s''))]),
         (True, seqs [lit ''endorse'', Opt (OneOf ''sd'')]),
         (True, seqs [lit ''favor'', Opt (Chr (CHR ''s''))]),
         (True, seqs [lit ''promote'', Opt (OneOf ''sd'')]),
         (True, seqs [lit ''champion'', Opt (Chr (CHR ''s''))])]\<rparr>"

text \<open>
  OPPOSES, with the connecting words
  \<^verbatim>\<open>oppose[sd]?\<close>,
  \<^verbatim>\<open>against\<close>,
  \<^verbatim>\<open>reject[sd]?\<close>,
  \<^verbatim>\<open>resist[s]?\<close>,
  \<^verbatim>\<open>fight[s]?\<close>,
  \<^verbatim>\<open>criticize[sd]?\<close>,
  \<^verbatim>\<open>condemn[s]?\<close>.
\<close>

definition rule_opposes :: relation_pattern where
  "rule_opposes =
     \<lparr>subject_types = [''PERSON'', ''ORGANIZATION'', ''LOCATION''],
      predicate = ''OPPOSES'',
      object_types = [''POLICY'', ''PERSON''],
      connecting_words =
        [(True, seqs [lit ''oppose'', Opt (OneOf ''sd'')]),
         (True, lit ''against''),
         (True, seqs [lit ''reject'', Opt (OneOf ''sd'')]),
         (True, seqs [lit ''resist'', Opt (Chr (CHR ''s''))]),
         (True, seqs [lit ''fight'', Opt (Chr (CHR ''s''))]),
         (True, seqs [lit ''criticize'', Opt (OneOf ''sd'')]),
         (True, seqs [lit ''condemn'', Opt (Chr (CHR ''s''))])]\<rparr>"

text \<open>
  NEGOTIATES, with the connecting words
  \<^verbatim>\<open>negotiate[sd]?\<close>,
  \<^verbatim>\<open>discuss(?:es)?\<close>,
  \<^verbatim>\<open>talk[s]?\s+with\<close>,
  \<^verbatim>\<open>meet[s]?\s+with\<close>,
  \<^verbatim>\<open>negotiating\s+with\<close>.
\<close>

definition rule_negotiates :: relation_pattern where
  "rule_negotiates =
     \<lparr>subject_types = [''PERSON'', ''LOCATION'', ''ORGANIZATION''],
      predicate = ''NEGOTIATES'',
      object_types = [''POLICY'', ''PERSON'', ''LOCATION''],
      connecting_words =
        [(True, seqs [lit ''negotiate'', Opt (OneOf ''sd'')]),
         (True, seqs [lit ''discuss'', Opt (lit ''es'')]),
         (True, seqs [lit ''talk'', Opt (Chr (CHR ''s'')), Plus Space, lit ''with'']),
         (True, seqs [lit ''meet'', Opt (Chr (CHR ''s'')), Plus Space, lit ''with'']),
         (True, seqs [lit ''negotiating'', Plus Space, lit ''with''])]\<rparr>"

text \<open>
  TARGETS, with the connecting words
  \<^verbatim>\<open>target[s]?\<close>,
  \<^verbatim>\<open>aim[s]?\s+at\<close>,
  \<^verbatim>\<open>focus(?:es)?\s+on\<close>,
  \<^verbatim>\<open>directed\s+at\<close>,
  \<^verbatim>\<open>against\<close>.
\<close>

definition rule_targets :: relation_pattern where
  "rule_targets =
     \<lparr>subject_types = [''POLICY'', ''TARIFF_RATE'', ''PERSON''],
      predicate = ''TARGETS'',
      object_types = [''LOCATION'', ''PRODUCT'', ''ECONOMIC_SECTOR'', ''ORGANIZATION''],
      connecting_words =
        [(True, seqs [lit ''target'', Opt (Chr (CHR ''s''))]),
         (True, seqs [lit ''aim'', Opt (Chr (CHR ''s'')), Plus Space, lit ''at'']),
         (True, seqs [lit ''focus'', Opt (lit ''es''), Plus Space, lit ''on'']),
         (True, seqs [lit ''directed'', Plus Space, lit ''at'']),
         (True, lit ''against'')]\<rparr>"

text \<open>
  LEADS, with the connecting words
  \<^verbatim>\<open>lead[s]?\<close>,
  \<^verbatim>\<open>head[s]?\<close>,
  \<^verbatim>\<open>run[s]?\<close>,
  \<^verbatim>\<open>president\s+of\<close>,
  \<^verbatim>\<open>leader\s+of\<close>,
  \<^verbatim>\<open>prime\s+minister\s+of\<close>.
\<close>

definition rule_leads :: relation_pattern where
  "rule_leads =
     \<lparr>subject_types = [''PERSON''],
      predicate = ''LEADS'',
      object_types = [''ORGANIZATION'', ''LOCATION''],
      connecting_words =
        [(True, seqs [lit ''lead'', Opt (Chr (CHR ''s''))]),
         (True, seqs [lit ''head'', Opt (Chr (CHR ''s''))]),
         (True, seqs [lit ''run'', Opt (Chr (CHR ''s''))]),
         (True, seqs [lit ''president'', Plus Space, lit ''of'']),
         (True, seqs [lit ''leader'', Plus Space, lit ''of'']),
         (True, seqs [lit ''prime'', Plus Space, lit ''minister'', Plus Space, lit ''of''])]\<rparr>"

text \<open>
  EXPORTS, with the connecting words
  \<^verbatim>\<open>export[s]?\<close>,
  \<^verbatim>\<open>sell[s]?\<close>,
  \<^verbatim>\<open>ship[s]?\<close>,
  \<^verbatim>\<open>send[s]?\<close>.
\<close>

definition rule_exports :: relation_pattern where
  "rule_exports =
     \<lparr>subject_types = [''LOCATION'', ''ORGANIZATION''],
      predicate = ''EXPORTS'',
      object_types = [''PRODUCT'', ''ECONOMIC_SECTOR'', ''MONEY''],
      connecting_words =
        [(True, seqs [lit ''export'', Opt (Chr (CHR ''s''))]),
         (True, seqs [lit ''sell'', Opt (Chr (CHR ''s''))]),
         (True, seqs [lit ''ship'', Opt (Chr (CHR ''s''))]),
         (True, seqs [lit ''send'', Opt (Chr (CHR ''s''))])]\<rparr>"

text \<open>
  IMPORTS, with the connecting words
  \<^verbatim>\<open>import[s]?\<close>,
  \<^verbatim>\<open>buy[s]?\<close>,
  \<^verbatim>\<open>purchase[s]?\<close>,
  \<^verbatim>\<open>receive[s]?\<close>.
\<close>

definition rule_imports :: relation_pattern where
  "rule_imports =
     \<lparr>subject_types = [''LOCATION'', ''ORGANIZATION''],
      predicate = ''IMPORTS'',
      object_types = [''PRODUCT'', ''ECONOMIC_SECTOR'', ''MONEY''],
      connecting_words =
        [(True, seqs [lit ''import'', Opt (Chr (CHR ''s''))]),
         (True, seqs [lit ''buy'', Opt (Chr (CHR ''s''))]),
         (True, seqs [lit ''purchase'', Opt (Chr (CHR ''s''))]),
         (True, seqs [lit ''receive'', Opt (Chr (CHR ''s''))])]\<rparr>"

definition relation_patterns :: "relation_pattern list" where
  "relation_patterns =
    [rule_announces, rule_increases, rule_decreases, rule_reports, rule_trades_with,
     rule_impacts, rule_supports, rule_opposes, rule_negotiates, rule_targets, rule_leads,
     rule_exports, rule_imports]"

definition type_relations :: "((string \<times> string) \<times> string) list" where
  "type_relations =
    [((''PERSON'', ''POLICY''), ''ASSOCIATED_WITH''),
     ((''PERSON'', ''LOCATION''), ''ASSOCIATED_WITH''),
     ((''PERSON'', ''ORGANIZATION''), ''ASSOCIATED_WITH''),
     ((''LOCATION'', ''LOCATION''), ''RELATED_TO''),
     ((''LOCATION'', ''POLICY''), ''RELATED_TO''),
     ((''LOCATION'', ''ECONOMIC_SECTOR''), ''HAS_SECTOR''),
     ((''LOCATION'', ''PRODUCT''), ''PRODUCES''),
     ((''ORGANIZATION'', ''POLICY''), ''RELATED_TO''),
     ((''ORGANIZATION'', ''LOCATION''), ''OPERATES_IN''),
     ((''POLICY'', ''ECONOMIC_SECTOR''), ''AFFECTS''),
     ((''POLICY'', ''PRODUCT''), ''AFFECTS''),
     ((''TARIFF_RATE'', ''PRODUCT''), ''APPLIES_TO''),
     ((''TARIFF_RATE'', ''LOCATION''), ''APPLIES_TO''),
     ((''PERCENTAGE'', ''PRODUCT''), ''APPLIES_TO''),
     ((''MONEY'', ''LOCATION''), ''RELATED_TO'')]"

type_synonym triple = "str \<times> string \<times> str"

text \<open>
  \<open>_find_connecting_phrase\<close> returns \<open>(True, pattern_str)\<close> for the first connecting
  word found in the lower-cased text between the two positions, and \<open>(False, "")\<close>
  when there is none: here \<open>Some pattern\<close> and \<open>None\<close>.
\<close>

definition find_connecting_phrase ::
  "unicode \<Rightarrow> str \<Rightarrow> int \<Rightarrow> int \<Rightarrow> pattern list \<Rightarrow> pattern option" where
  "find_connecting_phrase U text start_pos end_pos words =
     (let middle_text = lower U (slice text start_pos end_pos)
      in List.find (\<lambda>pattern. search U pattern middle_text) words)"

text \<open>
  The three nested loops of \<open>extract_relations\<close>, innermost first. The state is the
  list \<open>triples\<close> of the source, here \<open>result\<close>, and the set \<open>seen_triples\<close>.
\<close>

fun triple_key :: "unicode \<Rightarrow> triple \<Rightarrow> triple" where
  "triple_key U (s, p, ob) = (lower U s, p, lower U ob)"

fun try_pattern ::
  "unicode \<Rightarrow> str \<Rightarrow> span \<Rightarrow> span \<Rightarrow> triple list \<times> triple set \<Rightarrow> relation_pattern \<Rightarrow> triple list \<times> triple set" where
  "try_pattern U text (subj_type, subj_text, subj_start, subj_end)
       (obj_type, obj_text, obj_start, obj_end) (result, seen_triples) pattern =
     (if subj_type \<in> set (subject_types pattern) \<and> obj_type \<in> set (object_types pattern) then
        (case find_connecting_phrase U text subj_end obj_start (connecting_words pattern) of
           None \<Rightarrow> (result, seen_triples)
         | Some w \<Rightarrow>
             (let triple = (subj_text, predicate pattern, obj_text);
                  triple_key = (lower U subj_text, predicate pattern, lower U obj_text)
              in if triple_key \<notin> seen_triples
                 then (result @ [triple], insert triple_key seen_triples)
                 else (result, seen_triples)))
      else (result, seen_triples))"

fun try_object ::
  "unicode \<Rightarrow> str \<Rightarrow> nat \<Rightarrow> span \<Rightarrow> triple list \<times> triple set \<Rightarrow> nat \<times> span \<Rightarrow> triple list \<times> triple set" where
  "try_object U text i (subj_type, subj_text, subj_start, subj_end) state
       (j, (obj_type, obj_text, obj_start, obj_end)) =
     (if i = j then state
      else if subj_start \<ge> obj_start then state
      else foldl (try_pattern U text (subj_type, subj_text, subj_start, subj_end)
                    (obj_type, obj_text, obj_start, obj_end)) state relation_patterns)"

fun try_subject ::
  "unicode \<Rightarrow> str \<Rightarrow> span list \<Rightarrow> triple list \<times> triple set \<Rightarrow> nat \<times> span \<Rightarrow> triple list \<times> triple set" where
  "try_subject U text entities state (i, subj) =
     foldl (try_object U text i subj) state (enumerate 0 entities)"

definition relate :: "unicode \<Rightarrow> str \<Rightarrow> span list \<Rightarrow> triple list" where
  "relate U text entities = fst (foldl (try_subject U text entities) ([], {}) (enumerate 0 entities))"

fun extract_relations :: "unicode \<Rightarrow> py_value \<Rightarrow> triple list" where
  "extract_relations U NotStr = []"
| "extract_relations U (Str text) =
     (if text = [] then []
      else let entities = extract_entities_with_positions U (Str text)
           in if length entities < 2 then [] else relate U text entities)"

text \<open>\<open>extract_simple_triples\<close> and \<open>_infer_relation\<close>.\<close>

definition infer_relation :: "string \<Rightarrow> string \<Rightarrow> string" where
  "infer_relation type1 type2 =
     (case map_of type_relations (type1, type2) of None \<Rightarrow> ''MENTIONED_WITH'' | Some r \<Rightarrow> r)"

fun pair_second ::
  "unicode \<Rightarrow> nat \<Rightarrow> string \<times> str \<Rightarrow> triple list \<times> (str \<times> str) set \<Rightarrow> nat \<times> string \<times> str
     \<Rightarrow> triple list \<times> (str \<times> str) set" where
  "pair_second U i (type1, text1) (result, seen_pairs) (j, (type2, text2)) =
     (if i \<ge> j then (result, seen_pairs)
      else let pair_key = (lower U text1, lower U text2)
           in if pair_key \<in> seen_pairs then (result, seen_pairs)
              else let predicate = infer_relation type1 type2
                   in if predicate \<noteq> []
                      then (result @ [(text1, predicate, text2)], insert pair_key seen_pairs)
                      else (result, seen_pairs))"

fun pair_first ::
  "unicode \<Rightarrow> (string \<times> str) list \<Rightarrow> triple list \<times> (str \<times> str) set \<Rightarrow> nat \<times> string \<times> str
     \<Rightarrow> triple list \<times> (str \<times> str) set" where
  "pair_first U entities state (i, e1) = foldl (pair_second U i e1) state (enumerate 0 entities)"

definition pair_up :: "unicode \<Rightarrow> (string \<times> str) list \<Rightarrow> triple list" where
  "pair_up U entities = fst (foldl (pair_first U entities) ([], {}) (enumerate 0 entities))"

fun extract_simple_triples :: "unicode \<Rightarrow> py_value \<Rightarrow> triple list" where
  "extract_simple_triples U NotStr = []"
| "extract_simple_triples U (Str text) =
     (if text = [] then []
      else let entities = extract_entities U (Str text)
           in if length entities < 2 then [] else pair_up U entities)"

section \<open>Notions used in the statements\<close>

text \<open>
  The components of a span, and the set of character offsets it covers (the offsets are
  half open: \<open>start\<close> is covered, \<open>end\<close> is not).
\<close>

fun span_start :: "span \<Rightarrow> int" where
  "span_start (entity_type, text, start, end) = start"

fun span_end :: "span \<Rightarrow> int" where
  "span_end (entity_type, text, start, end) = end"

definition offsets :: "span \<Rightarrow> int set" where
  "offsets x = {span_start x..<span_end x}"

fun span_text :: "span \<Rightarrow> str" where
  "span_text (entity_type, text, start, end) = text"

fun span_type :: "span \<Rightarrow> string" where
  "span_type (entity_type, text, start, end) = entity_type"

text \<open>
  A position \<open>pos\<close> of a text where a term ends at \<open>end_pos\<close> is delimited when the
  character before it, if there is one, and the character after it, if there is one, are
  not alphanumeric.
\<close>

definition bounded_at :: "unicode \<Rightarrow> str \<Rightarrow> nat \<Rightarrow> nat \<Rightarrow> bool" where
  "bounded_at U s pos end_pos =
     ((pos = 0 \<or> \<not> isalnum U (s ! (pos - 1))) \<and> (end_pos = length s \<or> \<not> isalnum U (s ! end_pos)))"

text \<open>
  \<open>first_occurrences key xs\<close> keeps of \<open>xs\<close>, in order, each element whose key no
  earlier element has. \<open>emit\<close> is one guarded append to a result list with its set of
  seen keys.
\<close>

fun first_occurrences :: "('a \<Rightarrow> 'k) \<Rightarrow> 'a list \<Rightarrow> 'a list" where
  "first_occurrences key [] = []"
| "first_occurrences key (x # xs) = x # first_occurrences key (filter (\<lambda>y. key y \<noteq> key x) xs)"

definition emit :: "('a \<Rightarrow> 'k) \<Rightarrow> 'a list \<times> 'k set \<Rightarrow> 'a \<Rightarrow> 'a list \<times> 'k set" where
  "emit key state x =
     (case state of (result, seen) \<Rightarrow>
        if key x \<in> seen then (result, seen) else (result @ [x], insert (key x) seen))"

text \<open>
  The triples that the index pairs and rules of \<open>extract_relations\<close> produce, in the
  order of the three loops, before any is suppressed as seen: a rule fires for a subject
  and an object when their types are allowed and a connecting phrase is found between
  them.
\<close>

definition rule_fires :: "unicode \<Rightarrow> str \<Rightarrow> span \<Rightarrow> span \<Rightarrow> relation_pattern \<Rightarrow> bool" where
  "rule_fires U text subj obj pattern =
     (span_type subj \<in> set (subject_types pattern) \<and> span_type obj \<in> set (object_types pattern)
      \<and> find_connecting_phrase U text (span_end subj) (span_start obj) (connecting_words pattern) \<noteq> None)"

definition pair_candidates :: "unicode \<Rightarrow> str \<Rightarrow> nat \<times> span \<Rightarrow> nat \<times> span \<Rightarrow> triple list" where
  "pair_candidates U text s ob =
     (if fst s = fst ob \<or> span_start (snd s) \<ge> span_start (snd ob) then []
      else map (\<lambda>pattern. (span_text (snd s), predicate pattern, span_text (snd ob)))
             (filter (rule_fires U text (snd s) (snd ob)) relation_patterns))"

definition candidate_triples :: "unicode \<Rightarrow> str \<Rightarrow> span list \<Rightarrow> triple list" where
  "candidate_triples U text entities =
     concat (map (\<lambda>s. concat (map (pair_candidates U text s) (enumerate 0 entities)))
       (enumerate 0 entities))"

text \<open>
  The same for \<open>extract_simple_triples\<close>: one triple for each index pair \<open>i < j\<close>.
  Its key is the ordered pair of the lower-cased texts.
\<close>

fun pair_key :: "unicode \<Rightarrow> triple \<Rightarrow> str \<times> str" where
  "pair_key U (s, p, ob) = (lower U s, lower U ob)"

definition simple_candidates :: "(string \<times> str) list \<Rightarrow> triple list" where
  "simple_candidates entities =
     concat (map (\<lambda>(i, (type1, text1)).
       concat (map (\<lambda>(j, (type2, text2)).
         if i \<ge> j then [] else [(text1, infer_relation type1 type2, text2)])
         (enumerate 0 entities)))
       (enumerate 0 entities))"

section \<open>Properties of the graph store\<close>

lemma triples_add_triple:
  "triples (add_triple kg s p ob st ot) = triples kg @ [(s, p, ob)]"
  by (simp add: add_triple_def Let_def)

lemma edges_add_triple:
  "edge_list (graph (add_triple kg s p ob st ot)) = edge_list (graph kg) @ [(s, ob, p)]"
  by (simp add: add_triple_def Let_def add_edge_def add_node_def)

lemma edges_add_calls:
  "edge_list (graph (add_calls kg cs)) = edge_list (graph kg) @ map (\<lambda>(s, p, ob, st, ot). (s, ob, p)) cs"
  unfolding add_calls_def
  by (induction cs arbitrary: kg) (auto simp: edges_add_triple)

lemma triples_add_calls:
  "triples (add_calls kg cs) = triples kg @ map (\<lambda>(s, p, ob, st, ot). (s, p, ob)) cs"
  unfolding add_calls_def
  by (induction cs arbitrary: kg) (auto simp: triples_add_triple)

lemma nodes_add_triple:
  "fst ` set (node_attrs (graph (add_triple kg s p ob st ot))) = {s, ob} \<union> fst ` set (node_attrs (graph kg))"
  by (auto simp: add_triple_def Let_def add_edge_def add_node_def ensure_node_def dom_update)

lemma length_update_present:
  "k \<in> fst ` set al \<Longrightarrow> length (AList.update k v al) = length al"
  by (induction al) auto

lemma number_of_nodes_add_triple_present:
  assumes "s \<in> fst ` set (node_attrs (graph kg))" "ob \<in> fst ` set (node_attrs (graph kg))"
  shows "number_of_nodes (graph (add_triple kg s p ob st ot)) = number_of_nodes (graph kg)"
  using assms
  by (simp add: add_triple_def Let_def add_edge_def add_node_def ensure_node_def dom_update
      number_of_nodes_def length_update_present)

lemma entity_types_add_triple_untyped:
  "\<not> truthy st \<Longrightarrow> \<not> truthy ot \<Longrightarrow> entity_types (add_triple kg s p ob st ot) = entity_types kg"
  by (cases st; cases ot) (auto simp: add_triple_def Let_def)

lemma node_type_add_triple_untyped:
  "\<not> truthy st \<Longrightarrow> s \<noteq> ob \<Longrightarrow> node_type (add_triple kg s p ob st ot) s = Some ''UNKNOWN''"
  by (cases st)
     (auto simp: add_triple_def Let_def add_edge_def add_node_def ensure_node_def node_type_def
        dom_update update_conv')

lemma add_triple_typed_last_writer:
  "t \<noteq> [] \<Longrightarrow> s \<noteq> ob \<Longrightarrow>
     node_type (add_triple kg s p ob (Some t) ot) s = Some t
     \<and> type_of_entity (add_triple kg s p ob (Some t) ot) s = Some t"
  by (cases ot)
     (auto simp: add_triple_def Let_def add_edge_def add_node_def ensure_node_def node_type_def
        type_of_entity_def dom_update update_conv')

text \<open>
  Claim C9. After any sequence of \<open>add_triple\<close> calls on a fresh store the triple
  log is as long as the sequence of calls, and the graph has as many edges as the log has
  triples. Two calls \<open>add_triple("A","R","B")\<close> (with any type arguments) add two
  edges and two log entries to any store, the second call adds no node, and on a fresh
  store the node count is 2 after the first call and still 2 after the second.
\<close>

theorem add_triple_counts:
  "length (triples (add_calls init_kg cs)) = length cs
   \<and> number_of_edges (graph (add_calls init_kg cs)) = length (triples (add_calls init_kg cs))
   \<and> number_of_edges (graph (add_triple (add_triple kg ''A'' ''R'' ''B'' st ot) ''A'' ''R'' ''B'' st' ot'))
       = number_of_edges (graph kg) + 2
   \<and> length (triples (add_triple (add_triple kg ''A'' ''R'' ''B'' st ot) ''A'' ''R'' ''B'' st' ot'))
       = length (triples kg) + 2
   \<and> number_of_nodes (graph (add_triple (add_triple kg ''A'' ''R'' ''B'' st ot) ''A'' ''R'' ''B'' st' ot'))
       = number_of_nodes (graph (add_triple kg ''A'' ''R'' ''B'' st ot))
   \<and> number_of_nodes (graph (add_triple init_kg ''A'' ''R'' ''B'' st ot)) = 2
   \<and> number_of_nodes (graph (add_triple (add_triple init_kg ''A'' ''R'' ''B'' st ot) ''A'' ''R'' ''B'' st' ot')) = 2"
proof -
  have a: "length (triples (add_calls init_kg cs)) = length cs"
    by (simp add: triples_add_calls init_kg_def)
  have b: "number_of_edges (graph (add_calls init_kg cs)) = length (triples (add_calls init_kg cs))"
    by (simp add: triples_add_calls edges_add_calls number_of_edges_def init_kg_def empty_graph_def)
  have c: "number_of_edges (graph (add_triple (add_triple kg ''A'' ''R'' ''B'' st ot) ''A'' ''R'' ''B'' st' ot'))
       = number_of_edges (graph kg) + 2"
    by (simp add: number_of_edges_def edges_add_triple)
  have d: "length (triples (add_triple (add_triple kg ''A'' ''R'' ''B'' st ot) ''A'' ''R'' ''B'' st' ot'))
       = length (triples kg) + 2"
    by (simp add: triples_add_triple)
  have e: "number_of_nodes (graph (add_triple (add_triple kg ''A'' ''R'' ''B'' st ot) ''A'' ''R'' ''B'' st' ot'))
       = number_of_nodes (graph (add_triple kg ''A'' ''R'' ''B'' st ot))" for kg
    by (rule number_of_nodes_add_triple_present) (simp_all add: nodes_add_triple)
  have f: "number_of_nodes (graph (add_triple init_kg ''A'' ''R'' ''B'' st ot)) = 2"
    by (simp add: add_triple_def Let_def add_edge_def add_node_def ensure_node_def
        number_of_nodes_def init_kg_def empty_graph_def)
  from a b c d e f show ?thesis by simp
qed

text \<open>
  Claim C2. The claim says that a call without a type leaves the \<open>entity_type\<close>
  attribute of a node that already has a type unchanged. The code keeps the type in the
  dictionary \<open>entity_types\<close> (the update is guarded by \<open>if subject_type\<close>), but
  \<open>add_node(subject, entity_type=subject_type or 'UNKNOWN')\<close> overwrites the node's
  attribute: after \<open>add_triple("A","R","B","PERSON")\<close> the node A has type PERSON,
  and after a further \<open>add_triple("A","S","C")\<close> its attribute is UNKNOWN while the
  dictionary still says PERSON.
\<close>

theorem add_triple_untyped_resets_node_type:
  "node_type (add_triple init_kg ''A'' ''R'' ''B'' (Some ''PERSON'') None) ''A'' = Some ''PERSON''
   \<and> node_type (add_triple (add_triple init_kg ''A'' ''R'' ''B'' (Some ''PERSON'') None)
         ''A'' ''S'' ''C'' None None) ''A'' = Some ''UNKNOWN''
   \<and> type_of_entity (add_triple (add_triple init_kg ''A'' ''R'' ''B'' (Some ''PERSON'') None)
         ''A'' ''S'' ''C'' None None) ''A'' = Some ''PERSON''"
  by (simp add: add_triple_def Let_def add_edge_def add_node_def ensure_node_def
      node_type_def type_of_entity_def init_kg_def empty_graph_def)

text \<open>
  The loop of \<open>load_graph\<close> returns only from a state where the index has reached
  the end of the log; each step appends to the log, so from a state where the index is
  inside the log it never returns.
\<close>

lemma load_loop_returns_only_at_end:
  assumes ret: "load_loop i kg = Some r"
  shows "\<not> i < length (triples kg)"
proof (rule load_loop.raw_induct [of "\<lambda>i kg r. \<not> i < length (triples kg)" i kg r], goal_cases)
  case (1 f j st y)
  show ?case
  proof
    assume lt: "j < length (triples st)"
    obtain s p ob where t: "triples st ! j = (s, p, ob)" by (cases "triples st ! j") auto
    define st' where "st' = add_triple st s p ob (map_of (entity_types st) s) (map_of (entity_types st) ob)"
    from 1(2) lt t have "f (Suc j) st' = Some y"
      by (simp add: st'_def)
    then have "\<not> Suc j < length (triples st')" by (rule 1(1))
    with lt show False by (simp add: st'_def triples_add_triple)
  qed
next
  case 2
  show ?case by (rule ret)
qed

lemma load_loop_diverges:
  "i < length (triples kg) \<Longrightarrow> load_loop i kg = None"
  using load_loop_returns_only_at_end [of i kg] by (cases "load_loop i kg") auto

lemma load_graph_diverges:
  "file_triples d \<noteq> [] \<Longrightarrow> load_graph kg d = None"
  by (simp add: load_graph_def load_loop_diverges)

lemma load_graph_empty:
  "file_triples d = [] \<Longrightarrow> load_graph kg d = Some \<lparr>graph = empty_graph, triples = [], entity_types = (case file_entity_types d of None \<Rightarrow> [] | Some et \<Rightarrow> et)\<rparr>"
  by (simp add: load_graph_def load_loop.simps)

text \<open>
  Claim C1. The claim says that \<open>save_graph\<close> followed by \<open>load_graph\<close> gives
  the same log and type dictionary back. On the store holding the single triple
  \<open>("A","R","B")\<close>, \<open>load_graph\<close> of the saved file does not return: the
  rebuilding loop iterates over the log that \<open>add_triple\<close> extends.
\<close>

theorem load_graph_never_returns:
  "load_graph init_kg (save_graph (add_triple init_kg ''A'' ''R'' ''B'' None None)) = None
   \<and> triples (add_triple init_kg ''A'' ''R'' ''B'' None None) = [(''A'', ''R'', ''B'')]"
  by (simp add: load_graph_diverges save_graph_def triples_add_triple init_kg_def)




section \<open>Properties of the entity recognizer\<close>

lemma entity_dictionaries_nonempty:
  "list_all (\<lambda>(entity_type, dictionary). list_all (\<lambda>entity. entity \<noteq> []) dictionary) entity_dictionaries"
  by (simp add: entity_dictionaries_def ascii_def)

lemma finditer_from_ordered:
  "(st, e) \<in> set (finditer_from U r ic s pos ma) \<Longrightarrow> st \<le> e"
proof (induction U r ic s pos ma rule: finditer_from.induct)
  case (1 U r ic s pos ma)
  show ?case
  proof (cases "search_from U r ic s pos ma")
    case None
    with 1(2) show ?thesis by (simp add: finditer_from.simps)
  next
    case (Some m)
    obtain st' e' where m: "m = (st', e')" by (cases m)
    from 1(2) Some m consider "(st, e) = (st', e')" | "(st, e) \<in> set (finditer_from U r ic s e' (e' = st'))"
      by (subst (asm) finditer_from.simps) auto
    then show ?thesis
    proof cases
      case 1
      with search_from_Some(2) [of U r ic s pos ma st' e'] Some m show ?thesis by simp
    next
      case 2
      from "1.IH" [OF Some m [symmetric] 2] show ?thesis .
    qed
  qed
qed

lemma match_patterns_ordered:
  "x \<in> set (match_patterns U text) \<Longrightarrow> span_start x \<le> span_end x"
  by (auto simp: match_patterns_def finditer_def dest: finditer_from_ordered)

lemma starts_with_take: "starts_with ys zs \<Longrightarrow> take (length zs) ys = zs"
  by (induction ys zs rule: starts_with.induct) auto

lemma find_in_occurs:
  "find_in sub xs k = Some p \<Longrightarrow> take (length sub) (drop (p - k) xs) = sub"
proof (induction xs arbitrary: k)
  case Nil
  then show ?case by (simp split: if_splits)
next
  case (Cons x xs)
  show ?case
  proof (cases "starts_with (x # xs) sub")
    case True
    with Cons.prems starts_with_take [OF True] show ?thesis by simp
  next
    case False
    with Cons.prems have f: "find_in sub xs (Suc k) = Some p" by simp
    from find_in_Some [OF f] have "p - k = Suc (p - Suc k)" by arith
    with Cons.IH [OF f] show ?thesis by simp
  qed
qed

lemma str_find_occurs:
  assumes "str_find s sub start = Some p"
  shows "slice s (int p) (int (p + length sub)) = sub"
proof -
  from assms have f: "find_in sub (drop start s) start = Some p" and st: "start \<le> length s"
    by (auto simp: str_find_def split: if_splits)
  from find_in_Some [OF f] have b: "start \<le> p" "p + length sub \<le> length s" using st by auto
  from find_in_occurs [OF f] b have t: "take (length sub) (drop p s) = sub" by simp
  from b have lo: "clamp_index (int p) (length s) = p"
    and hi: "clamp_index (int (p + length sub)) (length s) = p + length sub"
    unfolding clamp_index_def by simp_all
  show ?thesis unfolding slice_def Let_def lo hi using t by simp
qed

lemma match_term_accepts:
  "(ty, tx, a, b) \<in> set (match_term U entity_type entity t text_lower start) \<Longrightarrow>
     \<exists>pos. a = int pos \<and> b = int (pos + length entity) \<and> entity \<noteq> [] \<and> ty = entity_type
       \<and> tx = slice t a b \<and> slice text_lower a b = entity
       \<and> pos + length entity \<le> length text_lower \<and> bounded_at U text_lower pos (pos + length entity)"
proof (induction U entity_type entity t text_lower start rule: match_term.induct)
  case (1 U ety ent tx0 tl st0)
  from 1(4) have ne: "ent \<noteq> []"
    by (subst (asm) match_term.simps) (auto split: if_splits)
  have "str_find tl ent st0 \<noteq> None"
  proof
    assume n: "str_find tl ent st0 = None"
    from 1(4) show False by (subst (asm) match_term.simps) (simp add: n ne)
  qed
  then obtain pos where f: "str_find tl ent st0 = Some pos" by auto
  note b = str_find_Some [OF f]
  note oc = str_find_occurs [OF f]
  define end_pos where "end_pos = pos + length ent"
  show ?case
  proof (cases "pos > 0 \<and> isalnum U (tl ! (pos - 1))")
    case True
    with 1(4) ne f have "(ty, tx, a, b) \<in> set (match_term U ety ent tx0 tl (pos + 1))"
      by (subst (asm) match_term.simps) auto
    from "1.IH"(1) [OF ne f True this] show ?thesis .
  next
    case nb: False
    show ?thesis
    proof (cases "end_pos < length tl \<and> isalnum U (tl ! end_pos)")
      case True
      with 1(4) ne f nb have "(ty, tx, a, b) \<in> set (match_term U ety ent tx0 tl (pos + 1))"
        by (subst (asm) match_term.simps) (auto simp: end_pos_def Let_def)
      from "1.IH"(2) [OF ne f nb end_pos_def True this] show ?thesis .
    next
      case na: False
      from 1(4) ne f nb na consider
        "(ty, tx, a, b) = (ety, slice tx0 (int pos) (int end_pos), int pos, int end_pos)"
        | "(ty, tx, a, b) \<in> set (match_term U ety ent tx0 tl end_pos)"
        by (subst (asm) match_term.simps) (auto simp: end_pos_def Let_def)
      then show ?thesis
      proof cases
        case 1
        with ne nb na b oc show ?thesis
          by (intro exI [of _ pos]) (auto simp: bounded_at_def end_pos_def)
      next
        case 2
        from "1.IH"(3) [OF ne f nb end_pos_def na 2] show ?thesis .
      qed
    qed
  qed
qed

lemma match_dictionary_accepts:
  assumes "(ty, tx, a, b) \<in> set (match_dictionary U text)"
  shows "\<exists>pos entity dictionary. (ty, dictionary) \<in> set entity_dictionaries \<and> entity \<in> set dictionary
       \<and> a = int pos \<and> b = int (pos + length entity) \<and> entity \<noteq> [] \<and> tx = slice text a b
       \<and> slice (lower U text) a b = entity
       \<and> pos + length entity \<le> length (lower U text)
       \<and> bounded_at U (lower U text) pos (pos + length entity)"
proof -
  from assms obtain entity_type dictionary entity where d: "(entity_type, dictionary) \<in> set entity_dictionaries"
    and en: "entity \<in> set dictionary"
    and m: "(ty, tx, a, b) \<in> set (match_term U entity_type entity text (lower U text) 0)"
    by (auto simp: match_dictionary_def Let_def)
  from match_term_accepts [OF m] d en show ?thesis by fastforce
qed

lemma match_dictionary_ordered:
  "x \<in> set (match_dictionary U text) \<Longrightarrow> span_start x \<le> span_end x"
  by (cases x) (auto dest!: match_dictionary_accepts)

lemma sweep_sound:
  assumes "\<And>x. x \<in> set es \<Longrightarrow> span_start x \<le> span_end x"
  shows "sorted_wrt (\<lambda>a b. span_end a \<le> span_start b) (sweep es last_end)
         \<and> (\<forall>x \<in> set (sweep es last_end). last_end \<le> span_start x)
         \<and> set (sweep es last_end) \<subseteq> set es"
  using assms
proof (induction es arbitrary: last_end)
  case Nil
  show ?case by simp
next
  case (Cons x es)
  obtain ty tx st e where x: "x = (ty, tx, st, e)" by (cases x)
  from Cons.prems have wf: "st \<le> e" unfolding x by fastforce
  have rest: "\<And>y. y \<in> set es \<Longrightarrow> span_start y \<le> span_end y" using Cons.prems by simp
  note IH = Cons.IH [OF rest]
  show ?case
  proof (cases "st \<ge> last_end")
    case True
    from IH [of e] wf True show ?thesis unfolding x by fastforce
  next
    case False
    from IH [of last_end] False show ?thesis unfolding x by auto
  qed
qed

lemma resolve_overlaps_sorted:
  assumes "\<And>x. x \<in> set es \<Longrightarrow> span_start x \<le> span_end x"
  shows "sorted_wrt (\<lambda>a b. span_end a \<le> span_start b) (resolve_overlaps es)"
proof -
  define ss where "ss = sort_key (\<lambda>(entity_type, text, start, end). (start, - (end - start))) es"
  have "sorted_wrt (\<lambda>a b. span_end a \<le> span_start b) (sweep ss (- 1))
         \<and> (\<forall>x \<in> set (sweep ss (- 1)). - 1 \<le> span_start x)
         \<and> set (sweep ss (- 1)) \<subseteq> set ss"
    by (rule sweep_sound) (use assms in \<open>simp add: ss_def\<close>)
  then show ?thesis
    by (simp add: resolve_overlaps_def ss_def)
qed

lemma sorted_wrt_disjoint:
  "sorted_wrt (\<lambda>a b. span_end a \<le> span_start b) xs \<Longrightarrow>
   sorted_wrt (\<lambda>a b. span_end a \<le> span_start b \<and> offsets a \<inter> offsets b = {}) xs"
  by (erule sorted_wrt_mono_rel [rotated]) (auto simp: offsets_def)

lemma entities_example:
  "extract_entities_with_positions U (Str (ascii ''Trump announces 25% tariff on Chinese imports''))
     = [(''PERSON'', ascii ''Trump'', 0, 5), (''TARIFF_RATE'', ascii ''25% tariff'', 16, 26)]"
  by code_simp

text \<open>
  Claim C3. For every input, the spans that \<open>extract_entities_with_positions\<close>
  returns are pairwise non-overlapping: each span ends at or before the start of every
  later span of the list, and no two spans of the list share a character offset.
\<close>

theorem extract_entities_with_positions_disjoint:
  "sorted_wrt (\<lambda>a b. span_end a \<le> span_start b \<and> offsets a \<inter> offsets b = {})
     (extract_entities_with_positions U v)
   \<and> (\<forall>i j. i < j \<and> j < length (extract_entities_with_positions U v) \<longrightarrow>
         offsets (extract_entities_with_positions U v ! i) \<inter> offsets (extract_entities_with_positions U v ! j) = {})"
proof -
  have s: "sorted_wrt (\<lambda>a b. span_end a \<le> span_start b \<and> offsets a \<inter> offsets b = {})
     (extract_entities_with_positions U v)"
  proof (cases v)
    case NotStr
    then show ?thesis by simp
  next
    case (Str text')
    let ?all = "match_dictionary U text' @ match_patterns U text'"
    have wf: "\<And>x. x \<in> set ?all \<Longrightarrow> span_start x \<le> span_end x"
      using match_dictionary_ordered match_patterns_ordered by auto
    let ?norm = "\<lambda>(entity_type, entity_text, start, end).
                (entity_type, capitalize_entity U entity_text entity_type, start, end)"
    have "sorted_wrt (\<lambda>a b. span_end a \<le> span_start b) (map ?norm (resolve_overlaps ?all))"
      unfolding sorted_wrt_map
      by (rule sorted_wrt_mono_rel [OF _ resolve_overlaps_sorted [OF wf]]) auto
    then show ?thesis unfolding Str by (auto simp: Let_def intro: sorted_wrt_disjoint)
  qed
  then show ?thesis by (auto simp: sorted_wrt_iff_nth_less)
qed

theorem extract_entities_with_positions_disjoint_witness:
  "\<forall>U. length (extract_entities_with_positions U
            (Str (ascii ''Trump announces 25% tariff on Chinese imports''))) = 2
     \<and> offsets (extract_entities_with_positions U
            (Str (ascii ''Trump announces 25% tariff on Chinese imports'')) ! 0)
       \<inter> offsets (extract_entities_with_positions U
            (Str (ascii ''Trump announces 25% tariff on Chinese imports'')) ! 1) = {}"
proof
  fix U
  show "length (extract_entities_with_positions U
            (Str (ascii ''Trump announces 25% tariff on Chinese imports''))) = 2
     \<and> offsets (extract_entities_with_positions U
            (Str (ascii ''Trump announces 25% tariff on Chinese imports'')) ! 0)
       \<inter> offsets (extract_entities_with_positions U
            (Str (ascii ''Trump announces 25% tariff on Chinese imports'')) ! 1) = {}"
    using extract_entities_with_positions_disjoint
      [of U "Str (ascii ''Trump announces 25% tariff on Chinese imports'')"]
    unfolding entities_example by simp
qed

text \<open>
  Claim C10. For every input, a string or not, empty or not, \<open>extract_entities\<close>
  returns the list of \<open>extract_entities_with_positions\<close> with the positions dropped.
\<close>

theorem extract_entities_projection:
  "extract_entities U v =
     map (\<lambda>(entity_type, text, start, end). (entity_type, text)) (extract_entities_with_positions U v)"
  by (cases v) (auto simp: Let_def)

text \<open>
  The boundary check follows the tables: in the text of the three code points 233 (e
  with acute accent), "U", "S", the term "us" is not matched when 233 is alphanumeric,
  as it is in Python, and is matched at offsets 1 to 3 under tables where it is not.
\<close>

lemma match_dictionary_follows_tables:
  "match_dictionary
     \<lparr>unicode_lower = map ascii_lower, unicode_upper = map ascii_upper, unicode_title = ascii_title,
      unicode_isalnum = (\<lambda>c. c = 233), unicode_isdigit = (\<lambda>c. False),
      unicode_isspace = (\<lambda>c. False), unicode_isword = (\<lambda>c. c = 233),
      unicode_ignorecase_eq = (\<lambda>x c. False)\<rparr> [233, 85, 83] = []
   \<and> match_dictionary
     \<lparr>unicode_lower = map ascii_lower, unicode_upper = map ascii_upper, unicode_title = ascii_title,
      unicode_isalnum = (\<lambda>c. False), unicode_isdigit = (\<lambda>c. False),
      unicode_isspace = (\<lambda>c. False), unicode_isword = (\<lambda>c. False),
      unicode_ignorecase_eq = (\<lambda>x c. False)\<rparr> [233, 85, 83] = [(''LOCATION'', ascii ''US'', 1, 3)]"
  by code_simp




section \<open>Properties of the relation extractor\<close>

lemma set_first_occurrences: "set (first_occurrences key xs) \<subseteq> set xs"
  by (induction key xs rule: first_occurrences.induct) auto

lemma distinct_first_occurrences: "distinct (map key (first_occurrences key xs))"
proof (induction key xs rule: first_occurrences.induct)
  case (1 key)
  show ?case by simp
next
  case (2 key x xs)
  have "key x \<notin> key ` set (first_occurrences key (filter (\<lambda>y. key y \<noteq> key x) xs))"
    using set_first_occurrences [of key "filter (\<lambda>y. key y \<noteq> key x) xs"] by auto
  with 2 show ?case by simp
qed

lemma foldl_emit:
  "foldl (emit key) (ts, key ` set ts) cs =
     (ts @ first_occurrences key (filter (\<lambda>c. key c \<notin> key ` set ts) cs),
      key ` set (ts @ first_occurrences key (filter (\<lambda>c. key c \<notin> key ` set ts) cs)))"
proof (induction cs arbitrary: ts)
  case Nil
  show ?case by simp
next
  case (Cons c cs)
  show ?case
  proof (cases "key c \<in> key ` set ts")
    case True
    then have "emit key (ts, key ` set ts) c = (ts, key ` set ts)" by (simp add: emit_def)
    with Cons.IH [of ts] True show ?thesis by simp
  next
    case False
    then have e: "emit key (ts, key ` set ts) c = (ts @ [c], key ` set (ts @ [c]))"
      by (simp add: emit_def)
    have f: "filter (\<lambda>d. key d \<notin> key ` set (ts @ [c])) cs
          = filter (\<lambda>y. key y \<noteq> key c) (filter (\<lambda>c. key c \<notin> key ` set ts) cs)"
      by (auto intro: filter_cong)
    from Cons.IH [of "ts @ [c]"] False show ?thesis
      unfolding foldl_Cons e f by simp
  qed
qed

lemma foldl_emit_Nil:
  "fst (foldl (emit key) ([], {}) cs) = first_occurrences key cs"
  using foldl_emit [of key "[]" cs] by simp

lemma foldl_concat:
  assumes "\<And>st x. f st x = foldl g st (h x)"
  shows "foldl f st xs = foldl g st (concat (map h xs))"
  by (induction xs arbitrary: st) (simp_all add: assms)

lemma try_pattern_emit:
  "try_pattern U text subj obj st pattern =
     (if rule_fires U text subj obj pattern
      then emit (triple_key U) st (span_text subj, predicate pattern, span_text obj) else st)"
  by (cases subj; cases obj; cases st)
     (auto simp: rule_fires_def emit_def Let_def split: option.splits)

lemma foldl_try_pattern:
  "foldl (try_pattern U text subj obj) st ps =
     foldl (emit (triple_key U)) st
       (map (\<lambda>pattern. (span_text subj, predicate pattern, span_text obj))
          (filter (rule_fires U text subj obj) ps))"
  by (induction ps arbitrary: st) (simp_all add: try_pattern_emit)

lemma try_object_emit:
  "try_object U text i subj st job = foldl (emit (triple_key U)) st (pair_candidates U text (i, subj) job)"
  by (cases subj; cases job; cases "snd job")
     (auto simp: pair_candidates_def foldl_try_pattern)

lemma try_subject_emit:
  "try_subject U text entities st s =
     foldl (emit (triple_key U)) st (concat (map (pair_candidates U text s) (enumerate 0 entities)))"
  by (cases s) (simp add: foldl_concat [where g = "emit (triple_key U)", OF try_object_emit])

lemma relate_first_occurrences:
  "relate U text entities = first_occurrences (triple_key U) (candidate_triples U text entities)"
  unfolding relate_def candidate_triples_def
  by (simp add: foldl_concat [where g = "emit (triple_key U)", OF try_subject_emit] foldl_emit_Nil)

lemma infer_relation_nonempty: "infer_relation type1 type2 \<noteq> []"
proof (cases "map_of type_relations (type1, type2)")
  case None
  then show ?thesis by (simp add: infer_relation_def)
next
  case (Some r)
  then have "((type1, type2), r) \<in> set type_relations" by (rule map_of_SomeD)
  moreover have "\<forall>x \<in> set type_relations. snd x \<noteq> []" by (simp add: type_relations_def)
  ultimately have "r \<noteq> []" by fastforce
  with Some show ?thesis by (simp add: infer_relation_def)
qed

lemma pair_second_emit:
  "pair_second U i (type1, text1) st je2 =
     foldl (emit (pair_key U)) st
       ((\<lambda>(j, (type2, text2)). if i \<ge> j then [] else [(text1, infer_relation type1 type2, text2)]) je2)"
  by (cases je2; cases "snd je2"; cases st)
     (auto simp: emit_def Let_def infer_relation_nonempty)

lemma pair_first_emit:
  "pair_first U entities st ie1 =
     foldl (emit (pair_key U)) st
       ((\<lambda>(i, (type1, text1)).
          concat (map (\<lambda>(j, (type2, text2)).
            if i \<ge> j then [] else [(text1, infer_relation type1 type2, text2)])
            (enumerate 0 entities))) ie1)"
proof (cases ie1)
  case (fields i type1 text1)
  show ?thesis
    unfolding fields prod.case pair_first.simps
    by (rule foldl_concat [where g = "emit (pair_key U)", OF pair_second_emit])
qed

lemma pair_up_first_occurrences:
  "pair_up U entities = first_occurrences (pair_key U) (simple_candidates entities)"
  unfolding pair_up_def simple_candidates_def
  by (simp only: foldl_concat [where g = "emit (pair_key U)", OF pair_first_emit] foldl_emit_Nil)

lemma relate_example:
  "relate U (ascii ''Trump announces 25% tariff on Chinese imports'')
     [(''PERSON'', ascii ''Trump'', 0, 5), (''TARIFF_RATE'', ascii ''25% tariff'', 16, 26)]
   = [(ascii ''Trump'', ''ANNOUNCES'', ascii ''25% tariff'')]"
  by code_simp

text \<open>
  Claim C5. On the text "Trump announces 25\% tariff on Chinese imports"
  \<open>extract_relations\<close> returns the one triple with subject "Trump", predicate
  ANNOUNCES and object "25\% tariff"; the object is the text of the span of type
  TARIFF\_RATE that the recognizer returns for this text, and it contains "25\%".
\<close>

theorem extract_relations_example:
  "extract_relations U (Str (ascii ''Trump announces 25% tariff on Chinese imports''))
     = [(ascii ''Trump'', ''ANNOUNCES'', ascii ''25% tariff'')]
   \<and> extract_entities_with_positions U (Str (ascii ''Trump announces 25% tariff on Chinese imports''))
     = [(''PERSON'', ascii ''Trump'', 0, 5), (''TARIFF_RATE'', ascii ''25% tariff'', 16, 26)]
   \<and> str_find (ascii ''25% tariff'') (ascii ''25%'') 0 = Some 0"
proof -
  have ne: "ascii ''Trump announces 25% tariff on Chinese imports'' \<noteq> []" by (simp add: ascii_def)
  have "extract_relations U (Str (ascii ''Trump announces 25% tariff on Chinese imports''))
     = [(ascii ''Trump'', ''ANNOUNCES'', ascii ''25% tariff'')]"
    unfolding extract_relations.simps entities_example using ne by (simp add: relate_example)
  moreover have "str_find (ascii ''25% tariff'') (ascii ''25%'') 0 = Some 0" by code_simp
  ultimately show ?thesis using entities_example by blast
qed

text \<open>
  Claim C6, as stated, fails: on "Trump announces 5\% 6\%" the pair of subject "Trump"
  and predicate ANNOUNCES is emitted twice, once with each object.
\<close>

theorem extract_relations_same_subject_predicate:
  "(\<forall>U. extract_relations U (Str (ascii ''Trump announces 5% 6%''))
       = [(ascii ''Trump'', ''ANNOUNCES'', ascii ''5%''), (ascii ''Trump'', ''ANNOUNCES'', ascii ''6%'')])
   \<and> (\<forall>U. \<not> distinct (map (\<lambda>(s, p, ob). (s, p))
         (extract_relations U (Str (ascii ''Trump announces 5% 6%'')))))"
proof -
  have e: "extract_relations U (Str (ascii ''Trump announces 5% 6%''))
     = [(ascii ''Trump'', ''ANNOUNCES'', ascii ''5%''), (ascii ''Trump'', ''ANNOUNCES'', ascii ''6%'')]" for U
    by code_simp
  then show ?thesis by simp
qed

text \<open>
  Claim C6, amended. For every input, \<open>extract_relations\<close> emits a given key
  (lower-cased subject, predicate, lower-cased object) at most once per call, however
  many index pairs and rules produce it, and keeps the first occurrences in order: the
  result of the loops is the list of produced triples with every triple dropped whose
  key an earlier one has.
\<close>

theorem extract_relations_dedup:
  "distinct (map (triple_key U) (extract_relations U v))
   \<and> relate U text entities = first_occurrences (triple_key U) (candidate_triples U text entities)"
proof -
  have "distinct (map (triple_key U) (extract_relations U v))"
    by (cases v) (simp_all add: Let_def relate_first_occurrences distinct_first_occurrences)
  then show ?thesis by (simp add: relate_first_occurrences)
qed

text \<open>
  Claim C7, as stated, fails: the key of a pair is the ordered pair of the lower-cased
  texts. On "US EU US" the index pair (0, 1) emits a triple for "Us" and "EU", and the
  later index pair (1, 2), with the same two texts in the other order, emits another.
\<close>

theorem extract_simple_triples_both_orders:
  "\<forall>U. extract_simple_triples U (Str (ascii ''US EU US''))
     = [(ascii ''Us'', ''RELATED_TO'', ascii ''EU''), (ascii ''Us'', ''RELATED_TO'', ascii ''Us''),
        (ascii ''EU'', ''RELATED_TO'', ascii ''Us'')]"
proof
  fix U
  show "extract_simple_triples U (Str (ascii ''US EU US''))
     = [(ascii ''Us'', ''RELATED_TO'', ascii ''EU''), (ascii ''Us'', ''RELATED_TO'', ascii ''Us''),
        (ascii ''EU'', ''RELATED_TO'', ascii ''Us'')]"
    by code_simp
qed

text \<open>
  Claim C7, amended. In \<open>extract_simple_triples\<close>, once a triple has been emitted for
  a pair of entity texts, every later index pair whose first text and second text are,
  case-insensitively, the same first and second text is skipped: the result is the list
  of the triples of all index pairs \<open>i < j\<close> with every triple dropped whose ordered
  key an earlier one has.
\<close>

theorem extract_simple_triples_dedup:
  "distinct (map (pair_key U) (extract_simple_triples U v))
   \<and> pair_up U entities = first_occurrences (pair_key U) (simple_candidates entities)"
proof -
  have "distinct (map (pair_key U) (extract_simple_triples U v))"
    by (cases v) (simp_all add: Let_def pair_up_first_occurrences distinct_first_occurrences)
  then show ?thesis by (simp add: pair_up_first_occurrences)
qed

end
